theory Spec2Isabelle
  imports Complex_Main
begin

section \<open>Python values, exceptions and the built-ins that app.py calls\<close>

text \<open>
  The handlers of \<^verbatim>\<open>app.py\<close> are glue between a browser, a PKCS\#11 driver, a PDF signing
  library and the file system. The embedding keeps the glue as it is written and takes
  everything outside the repository as data: the answers of the driver and of the libraries
  are fields of records (\<open>libs\<close>, \<open>card\<close>, \<open>token\<close>, \<open>pyhanko\<close>, \<open>disk\<close>), and every call the
  handler
  makes to the outside is logged as an \<open>event\<close>, in program order.

  Python text is modelled as \<open>string\<close> over ASCII; Python floats are modelled as exact reals
  (rounding, infinities and NaN are not modelled).
\<close>

type_synonym bytes = "char list"

datatype pyval =
    PNone
  | PBool bool
  | PInt int
  | PFloat real
  | PStr string
  | PBytes bytes
  | PList "pyval list"
  | PDict "(string \<times> pyval) list"

text \<open>
  An exception is known by the \<^verbatim>\<open>except\<close> clause that matches it, by its type name
  (\<^verbatim>\<open>type(e).__name__\<close>) and by its text (\<^verbatim>\<open>str(e)\<close>). Every exception modelled here is a
  subclass of \<^verbatim>\<open>Exception\<close>.
\<close>

datatype exn_class = PyKCS11Error | PKCS11Error | OtherException

record exn =
  exn_class :: exn_class
  exn_type :: string
  exn_str :: string

text \<open>
  Library and interpreter functions that are not re-implemented: each is a parameter.
  \<open>float_of_str\<close> is \<^verbatim>\<open>float(s)\<close> on a string (\<open>None\<close>: ValueError), \<open>str_other\<close> is \<^verbatim>\<open>str(v)\<close> on
  floats, bytes and containers, \<open>err_msg\<close> the text of a built-in exception (it depends on
  the interpreter's version), and the others are the functions of the same name in
  json, base64, werkzeug and cryptography.
\<close>

record libs =
  float_of_str :: "string \<Rightarrow> real option"
  str_other :: "pyval \<Rightarrow> string"
  err_msg :: "string \<Rightarrow> pyval \<Rightarrow> string"
  decode_replace :: "bytes \<Rightarrow> string"
  chr_join :: "pyval list \<Rightarrow> exn + string"
  json_loads :: "string \<Rightarrow> exn + pyval"
  b64encode :: "bytes \<Rightarrow> string"
  b64decode :: "pyval \<Rightarrow> exn + bytes"
  secure_filename :: "string \<Rightarrow> string"
  load_der_x509 :: "bytes \<Rightarrow> (string \<times> string \<times> string) option"

definition builtin_error :: "libs \<Rightarrow> string \<Rightarrow> pyval \<Rightarrow> exn" where
  "builtin_error L ty v = \<lparr>exn_class = OtherException, exn_type = ty, exn_str = err_msg L ty v\<rparr>"

subsection \<open>Strings\<close>

definition is_space :: "char \<Rightarrow> bool" where
  "is_space c = (c \<in> set [CHR 0x09, CHR 0x0A, CHR 0x0B, CHR 0x0C, CHR 0x0D,
                            CHR 0x1C, CHR 0x1D, CHR 0x1E, CHR 0x1F, CHR 0x20])"

definition strip :: "string \<Rightarrow> string" where
  "strip s = rev (dropWhile is_space (rev (dropWhile is_space s)))"

definition upper_char :: "char \<Rightarrow> char" where
  "upper_char c =
     (case map_of (zip ''abcdefghijklmnopqrstuvwxyz'' ''ABCDEFGHIJKLMNOPQRSTUVWXYZ'') c of
        Some u \<Rightarrow> u
      | None \<Rightarrow> c)"

definition upper :: "string \<Rightarrow> string" where
  "upper s = map upper_char s"

fun starts_with :: "string \<Rightarrow> string \<Rightarrow> bool" where
  "starts_with [] s = True"
| "starts_with (c # cs) [] = False"
| "starts_with (c # cs) (d # ds) = (c = d \<and> starts_with cs ds)"

text \<open>\<open>str_in sub s\<close> is Python's \<^verbatim>\<open>sub in s\<close> on strings.\<close>

fun str_in :: "string \<Rightarrow> string \<Rightarrow> bool" where
  "str_in sub [] = (sub = [])"
| "str_in sub (c # cs) = (starts_with sub (c # cs) \<or> str_in sub cs)"

fun join_with :: "string \<Rightarrow> string list \<Rightarrow> string" where
  "join_with sep [] = []"
| "join_with sep [x] = x"
| "join_with sep (x # y # ys) = x @ sep @ join_with sep (y # ys)"

subsection \<open>Integers as text\<close>

definition digit_char :: "nat \<Rightarrow> char" where
  "digit_char d = ''0123456789'' ! d"

function show_nat :: "nat \<Rightarrow> string" where
  "show_nat n = (if n < 10 then [digit_char n] else show_nat (n div 10) @ [digit_char (n mod 10)])"
  by pat_completeness auto
termination
  by (relation "measure id") auto

definition show_int :: "int \<Rightarrow> string" where
  "show_int i = (if i < 0 then CHR ''-'' # show_nat (nat (- i)) else show_nat (nat i))"

text \<open>\<^verbatim>\<open>str(xs)\<close> of a list of integers, as an f-string prints it.\<close>

definition show_int_list :: "int list \<Rightarrow> string" where
  "show_int_list xs = ''['' @ join_with '', '' (map show_int xs) @ '']''"

definition digit_of :: "char \<Rightarrow> nat option" where
  "digit_of c = map_of (zip ''0123456789'' [0, 1, 2, 3, 4, 5, 6, 7, 8, 9]) c"

text \<open>
  The digits of an integer literal: groups of decimal digits, with single underscores
  allowed between digits. \<open>acc\<close> is \<open>None\<close> until the first digit is read; \<open>us\<close> says that
  the previous character was an underscore.
\<close>

fun read_digits :: "nat option \<Rightarrow> bool \<Rightarrow> string \<Rightarrow> nat option" where
  "read_digits acc us [] = (if us then None else acc)"
| "read_digits acc us (c # cs) =
     (if c = CHR ''_'' then
        (if us \<or> acc = None then None else read_digits acc True cs)
      else
        (case digit_of c of
           None \<Rightarrow> None
         | Some d \<Rightarrow> read_digits (Some (10 * (case acc of None \<Rightarrow> 0 | Some a \<Rightarrow> a) + d)) False cs))"

text \<open>\<^verbatim>\<open>int(s)\<close> on a string: surrounding whitespace, an optional sign, the digits.\<close>

definition int_of_str :: "string \<Rightarrow> int option" where
  "int_of_str s =
     (case strip s of
        [] \<Rightarrow> None
      | c # cs \<Rightarrow>
          if c = CHR ''-'' then map_option (\<lambda>n. - int n) (read_digits None False cs)
          else if c = CHR ''+'' then map_option int (read_digits None False cs)
          else map_option int (read_digits None False (c # cs)))"

subsection \<open>Conversions and truth values\<close>

text \<open>\<^verbatim>\<open>int(v)\<close>: a float is truncated towards zero, a string is parsed.\<close>

definition py_int :: "libs \<Rightarrow> pyval \<Rightarrow> exn + int" where
  "py_int L v =
     (case v of
        PInt i \<Rightarrow> Inr i
      | PBool b \<Rightarrow> Inr (if b then 1 else 0)
      | PFloat r \<Rightarrow> Inr (if r < 0 then - \<lfloor>- r\<rfloor> else \<lfloor>r\<rfloor>)
      | PStr s \<Rightarrow> (case int_of_str s of
                    Some i \<Rightarrow> Inr i
                  | None \<Rightarrow> Inl (builtin_error L ''ValueError'' v))
      | _ \<Rightarrow> Inl (builtin_error L ''TypeError'' v))"

text \<open>\<^verbatim>\<open>float(v)\<close>.\<close>

definition py_float :: "libs \<Rightarrow> pyval \<Rightarrow> exn + real" where
  "py_float L v =
     (case v of
        PInt i \<Rightarrow> Inr (of_int i)
      | PBool b \<Rightarrow> Inr (if b then 1 else 0)
      | PFloat r \<Rightarrow> Inr r
      | PStr s \<Rightarrow> (case float_of_str L s of
                    Some r \<Rightarrow> Inr r
                  | None \<Rightarrow> Inl (builtin_error L ''ValueError'' v))
      | _ \<Rightarrow> Inl (builtin_error L ''TypeError'' v))"

text \<open>\<^verbatim>\<open>str(v)\<close>.\<close>

definition py_str :: "libs \<Rightarrow> pyval \<Rightarrow> string" where
  "py_str L v =
     (case v of
        PStr s \<Rightarrow> s
      | PInt i \<Rightarrow> show_int i
      | PNone \<Rightarrow> ''None''
      | PBool b \<Rightarrow> (if b then ''True'' else ''False'')
      | _ \<Rightarrow> str_other L v)"

text \<open>The truth value of an object, as \<^verbatim>\<open>if v:\<close> and \<^verbatim>\<open>not v\<close> take it.\<close>

definition truthy :: "pyval \<Rightarrow> bool" where
  "truthy v =
     (case v of
        PNone \<Rightarrow> False
      | PBool b \<Rightarrow> b
      | PInt i \<Rightarrow> i \<noteq> 0
      | PFloat r \<Rightarrow> r \<noteq> 0
      | PStr s \<Rightarrow> s \<noteq> []
      | PBytes b \<Rightarrow> b \<noteq> []
      | PList xs \<Rightarrow> xs \<noteq> []
      | PDict kvs \<Rightarrow> kvs \<noteq> [])"

text \<open>\<^verbatim>\<open>d.get(k, default)\<close> on a dict; an object that is no dict has no \<^verbatim>\<open>get\<close>.\<close>

definition dict_get :: "libs \<Rightarrow> pyval \<Rightarrow> string \<Rightarrow> pyval \<Rightarrow> exn + pyval" where
  "dict_get L d k dflt =
     (case d of
        PDict kvs \<Rightarrow> Inr (case map_of kvs k of Some v \<Rightarrow> v | None \<Rightarrow> dflt)
      | _ \<Rightarrow> Inl (builtin_error L ''AttributeError'' d))"

text \<open>\<^verbatim>\<open>xs[i]\<close> on a list: a negative index counts from the end.\<close>

definition list_index :: "'a list \<Rightarrow> int \<Rightarrow> 'a option" where
  "list_index xs i =
     (if 0 \<le> i \<and> i < int (length xs) then Some (xs ! nat i)
      else if i < 0 \<and> - int (length xs) \<le> i then Some (xs ! nat (int (length xs) + i))
      else None)"

section \<open>Module state and configuration\<close>

text \<open>
  What the module reads from its surroundings: whether the two import blocks at the top of
  \<^verbatim>\<open>app.py\<close> succeed (the second one imports pyHanko together with python-pkcs11), the
  environment variable \<^verbatim>\<open>PKCS11_LIB\<close>, the paths that exist on the disk (finitely many),
  the temporary directory \<^verbatim>\<open>app.config['UPLOAD_FOLDER']\<close> and what
  \<^verbatim>\<open>os.path.expanduser('~/Downloads')\<close> gives.
\<close>

record config =
  PKCS11_AVAILABLE :: bool
  PYHANKO_AVAILABLE :: bool
  env_PKCS11_LIB :: "string option"
  existing_paths :: "string list"
  upload_folder :: string
  downloads_folder :: string

text \<open>\<^verbatim>\<open>os.path.exists(p)\<close>.\<close>

definition path_exists :: "config \<Rightarrow> string \<Rightarrow> bool" where
  "path_exists cfg p = (p \<in> set (existing_paths cfg))"

definition DEFAULT_PKCS11_LIB :: string where
  "DEFAULT_PKCS11_LIB =
     ''/Library/Application Support/com.idemia.idplug/lib/libidplug-pkcs11.2.7.0.dylib''"

text \<open>
  \<^verbatim>\<open>get_pkcs11_lib_path(custom_path=None)\<close>. The argument is whatever the request holds:
  \<^verbatim>\<open>custom_path and custom_path.strip()\<close> is false for a false object, and an object that is
  true and no string has no \<^verbatim>\<open>strip\<close> (a JSON body, a form and a query string never hold
  bytes).
\<close>

definition get_pkcs11_lib_path :: "libs \<Rightarrow> config \<Rightarrow> pyval \<Rightarrow> exn + string" where
  "get_pkcs11_lib_path L cfg custom_path =
     (if truthy custom_path then
        (case custom_path of
           PStr s \<Rightarrow>
             if strip s \<noteq> [] then Inr (strip s)
             else Inr (case env_PKCS11_LIB cfg of Some v \<Rightarrow> v | None \<Rightarrow> DEFAULT_PKCS11_LIB)
         | _ \<Rightarrow> Inl (builtin_error L ''AttributeError'' custom_path))
      else Inr (case env_PKCS11_LIB cfg of Some v \<Rightarrow> v | None \<Rightarrow> DEFAULT_PKCS11_LIB))"

text \<open>What a handler hands back to Flask: a JSON body with a status, or an exception.\<close>

datatype outcome = Response pyval nat | Raised exn

text \<open>\<^verbatim>\<open>api_status()\<close>: \<^verbatim>\<open>GET /api/status\<close>.\<close>

definition api_status :: "libs \<Rightarrow> config \<Rightarrow> outcome" where
  "api_status L cfg =
     (case get_pkcs11_lib_path L cfg PNone of
        Inl e \<Rightarrow> Raised e
      | Inr lib_path \<Rightarrow>
          Response (PDict [(''pkcs11_available'', PBool (PKCS11_AVAILABLE cfg)),
                           (''pyhanko_available'', PBool (PYHANKO_AVAILABLE cfg)),
                           (''pkcs11_lib_path'', PStr lib_path),
                           (''pkcs11_lib_exists'', PBool (path_exists cfg lib_path))]) 200)"

section \<open>Calls to the outside\<close>

text \<open>
  The geometry of a signature field, as pyHanko's \<^verbatim>\<open>SigFieldSpec\<close> receives it: the page
  index and the box \<open>(x1, y1, x2, y2)\<close>.
\<close>

record sig_field_spec =
  on_page :: int
  box :: "real \<times> real \<times> real \<times> real"

text \<open>Every call a handler makes to a driver, a library with effects, or the system.\<close>

datatype event =
    Load string
  | GetSlotList
  | OpenSession int
  | Login string
  | FindObjects
  | GetAttributeValue nat
  | Logout
  | CloseSession
  | PrintExc
  | Pkcs11Lib string
  | GetSlots
  | GetToken int
  | TokenOpen int string
  | ReadPdf bytes
  | FromReader
  | PagesKids
  | AppendSignatureField sig_field_spec
  | SignPdf string string "string option"
  | SessionClose
  | WriteFile string bytes
  | ZipOpen string
  | ZipWritestr pyval bytes
  | ZipClose
  | Reveal string

text \<open>
  The state a handler threads through its calls: the log of events, and whether the local
  variable \<^verbatim>\<open>session\<close> of \<^verbatim>\<open>api_sign_pdf\<close> holds a session (it starts as \<^verbatim>\<open>None\<close>).
\<close>

record st =
  trace :: "event list"
  session_var :: bool

definition st0 :: st where
  "st0 = \<lparr>trace = [], session_var = False\<rparr>"

type_synonym 'a io = "st \<Rightarrow> (exn + 'a) \<times> st"

definition ret :: "'a \<Rightarrow> 'a io" where
  "ret x = (\<lambda>s. (Inr x, s))"

text \<open>A computation without effects that may raise.\<close>

definition lift :: "exn + 'a \<Rightarrow> 'a io" where
  "lift r = (\<lambda>s. (r, s))"

text \<open>A call to the outside: it is logged, then it answers or raises.\<close>

definition call :: "event \<Rightarrow> exn + 'a \<Rightarrow> 'a io" where
  "call ev r = (\<lambda>s. (r, s\<lparr>trace := trace s @ [ev]\<rparr>))"

text \<open>Sequencing: an exception skips the rest.\<close>

definition io_bind :: "'a io \<Rightarrow> ('a \<Rightarrow> 'b io) \<Rightarrow> 'b io" where
  "io_bind m f = (\<lambda>s. case m s of (Inl e, s') \<Rightarrow> (Inl e, s') | (Inr x, s') \<Rightarrow> f x s')"

definition set_session :: "bool \<Rightarrow> unit io" where
  "set_session b = (\<lambda>s. (Inr (), s\<lparr>session_var := b\<rparr>))"

text \<open>The answer of a call that returns nothing.\<close>

definition answer :: "exn option \<Rightarrow> exn + unit" where
  "answer r = (case r of None \<Rightarrow> Inr () | Some e \<Rightarrow> Inl e)"

text \<open>\<^verbatim>\<open>jsonify({'error': msg})\<close>.\<close>

definition error_json :: "string \<Rightarrow> pyval" where
  "error_json msg = PDict [(''error'', PStr msg)]"

section \<open>POST /api/certificate\<close>

text \<open>What the PyKCS11 driver answers to each call (\<open>None\<close>: the call returns normally).\<close>

record card =
  c_load :: "string \<Rightarrow> exn option"
  c_getSlotList :: "exn + int list"
  c_openSession :: "int \<Rightarrow> exn option"
  c_login :: "string \<Rightarrow> exn option"
  c_findObjects :: "exn + nat list"
  c_getAttributeValue :: "nat \<Rightarrow> exn + (bytes option \<times> pyval)"
  c_logout :: "exn option"
  c_closeSession :: "exn option"

text \<open>
  The label of a certificate object: a string, bytes, or a list of integers, depending on
  the version of PyKCS11 (lines 178 to 188).
\<close>

definition label_of :: "libs \<Rightarrow> pyval \<Rightarrow> exn + string" where
  "label_of L raw_label =
     (if \<not> truthy raw_label then Inr ''Unknown''
      else
        (case raw_label of
           PStr s \<Rightarrow> Inr s
         | PBytes b \<Rightarrow> Inr (decode_replace L b)
         | PList (PInt i # xs) \<Rightarrow> chr_join L (PInt i # xs)
         | PList (PBool b # xs) \<Rightarrow> chr_join L (PBool b # xs)
         | _ \<Rightarrow> Inr (py_str L raw_label)))"

text \<open>
  The entry of one certificate (lines 190 to 210): the parsed form, or the fallback of the
  bare \<^verbatim>\<open>except\<close> when the certificate cannot be parsed.
\<close>

definition cert_entry :: "libs \<Rightarrow> string \<Rightarrow> bytes \<Rightarrow> pyval" where
  "cert_entry L label cert_der =
     (case load_der_x509 L cert_der of
        Some (subject, issuer, not_after) \<Rightarrow>
          PDict [(''label'', PStr label),
                 (''subject'', PStr subject),
                 (''issuer'', PStr issuer),
                 (''valid_until'', PStr not_after),
                 (''der_base64'', PStr (b64encode L cert_der))]
      | None \<Rightarrow>
          PDict [(''label'', PStr label),
                 (''der_base64'', PStr (b64encode L cert_der))])"

text \<open>The loop over the certificate objects (lines 174 to 210).\<close>

fun cert_loop :: "libs \<Rightarrow> card \<Rightarrow> nat list \<Rightarrow> pyval list \<Rightarrow> (pyval list) io" where
  "cert_loop L C [] cert_info = ret cert_info"
| "cert_loop L C (cert # certs) cert_info =
     io_bind (call (GetAttributeValue cert) (c_getAttributeValue C cert)) (\<lambda>attrs.
     io_bind (lift (case fst attrs of
                      Some b \<Rightarrow> Inr b
                    | None \<Rightarrow> Inl (builtin_error L ''TypeError'' PNone))) (\<lambda>cert_der.
     io_bind (lift (label_of L (snd attrs))) (\<lambda>label.
     cert_loop L C certs (cert_info @ [cert_entry L label cert_der]))))"

definition slot_unavailable_msg :: "int \<Rightarrow> int list \<Rightarrow> string" where
  "slot_unavailable_msg slot_id available_slots =
     ''Slot '' @ show_int slot_id @ '' not available. Available slots: ''
     @ show_int_list available_slots
     @ ''. Please click '' @ [CHR 0x22] @ ''Detect Smart Card'' @ [CHR 0x22] @ '' again.''"

text \<open>The body of the \<^verbatim>\<open>try\<close> block (lines 157 to 215).\<close>

definition certificate_body :: "libs \<Rightarrow> config \<Rightarrow> card \<Rightarrow> pyval \<Rightarrow> int \<Rightarrow> string \<Rightarrow> outcome io" where
  "certificate_body L cfg C data slot_id pin =
     io_bind (lift (dict_get L data ''pkcs11_path'' PNone)) (\<lambda>custom_path.
     io_bind (lift (get_pkcs11_lib_path L cfg custom_path)) (\<lambda>lib_path.
     io_bind (call (Load lib_path) (answer (c_load C lib_path))) (\<lambda>_.
     io_bind (call GetSlotList (c_getSlotList C)) (\<lambda>available_slots.
     if slot_id \<notin> set available_slots then
       ret (Response (error_json (slot_unavailable_msg slot_id available_slots)) 400)
     else
     io_bind (call (OpenSession slot_id) (answer (c_openSession C slot_id))) (\<lambda>_.
     io_bind (call (Login pin) (answer (c_login C pin))) (\<lambda>_.
     io_bind (call FindObjects (c_findObjects C)) (\<lambda>certs.
     io_bind (cert_loop L C certs []) (\<lambda>cert_info.
     io_bind (call Logout (answer (c_logout C))) (\<lambda>_.
     io_bind (call CloseSession (answer (c_closeSession C))) (\<lambda>_.
     ret (Response (PDict [(''certificates'', PList cert_info)]) 200)))))))))))"

text \<open>The clause \<^verbatim>\<open>except PyKCS11.PyKCS11Error\<close> (lines 217 to 229).\<close>

definition certificate_pkcs11_error :: "int \<Rightarrow> string \<Rightarrow> outcome" where
  "certificate_pkcs11_error slot_id error_msg =
     (if str_in ''CKR_PIN_INCORRECT'' error_msg then
        Response (error_json ''Incorrect PIN. Please check your PIN and try again.'') 401
      else if str_in ''CKR_PIN_LOCKED'' error_msg then
        Response (error_json ''PIN is locked. Too many incorrect attempts.'') 401
      else if str_in ''CKR_TOKEN_NOT_PRESENT'' error_msg then
        Response (error_json ''Smart card not detected. Please insert your CEI card.'') 500
      else if str_in ''CKR_SLOT_ID_INVALID'' error_msg then
        Response (error_json (''Invalid slot '' @ show_int slot_id @ ''. Please click ''
                               @ [CHR 0x22] @ ''Detect Smart Card'' @ [CHR 0x22]
                               @ '' and select the correct slot.'')) 500
      else if str_in ''CKR_USER_NOT_LOGGED_IN'' error_msg then
        Response (error_json ''Session expired. Please try again.'') 500
      else Response (error_json (''Smart card error: '' @ error_msg)) 500)"

text \<open>The \<^verbatim>\<open>try\<close> statement with its two \<^verbatim>\<open>except\<close> clauses (lines 156 to 233).\<close>

definition certificate_try :: "libs \<Rightarrow> config \<Rightarrow> card \<Rightarrow> pyval \<Rightarrow> int \<Rightarrow> string \<Rightarrow> st \<Rightarrow> outcome \<times> st" where
  "certificate_try L cfg C data slot_id pin s =
     (case certificate_body L cfg C data slot_id pin s of
        (Inr resp, s') \<Rightarrow> (resp, s')
      | (Inl e, s') \<Rightarrow>
          if exn_class e = PyKCS11Error then (certificate_pkcs11_error slot_id (exn_str e), s')
          else (Response (error_json (''Error: '' @ exn_str e)) 500,
                s'\<lparr>trace := trace s' @ [PrintExc]\<rparr>))"

text \<open>
  \<^verbatim>\<open>api_get_certificate()\<close>. \<open>body\<close> is what \<^verbatim>\<open>request.json\<close> gives: the parsed body, or the
  exception werkzeug raises for a body that is not JSON.
\<close>

definition api_get_certificate :: "libs \<Rightarrow> config \<Rightarrow> card \<Rightarrow> exn + pyval \<Rightarrow> outcome \<times> st" where
  "api_get_certificate L cfg C body =
     (if \<not> PKCS11_AVAILABLE cfg then (Response (error_json ''PyKCS11 not installed'') 500, st0)
      else
        (case body of
           Inl e \<Rightarrow> (Raised e, st0)
         | Inr data \<Rightarrow>
             if \<not> truthy data then (Response (error_json ''Invalid request data'') 400, st0)
             else
               (case dict_get L data ''slot'' (PInt 2) of
                  Inl e \<Rightarrow> (Raised e, st0)
                | Inr slot_raw \<Rightarrow>
                    (case py_int L slot_raw of
                       Inl e \<Rightarrow> (Raised e, st0)
                     | Inr slot_id \<Rightarrow>
                         (case dict_get L data ''pin'' (PStr []) of
                            Inl e \<Rightarrow> (Raised e, st0)
                          | Inr pin_raw \<Rightarrow>
                              (let pin = strip (py_str L pin_raw) in
                               if pin = [] then (Response (error_json ''PIN required'') 400, st0)
                               else certificate_try L cfg C data slot_id pin st0))))))"

section \<open>POST /api/sign\<close>

text \<open>The uploaded file and the form fields of the multipart request.\<close>

record upload =
  up_filename :: string
  up_content :: bytes

record sign_request =
  rq_pdf :: "upload option"
  rq_form :: "(string \<times> string) list"

text \<open>\<^verbatim>\<open>request.form.get(k, default)\<close>: a form value is a string.\<close>

definition form_get :: "(string \<times> string) list \<Rightarrow> string \<Rightarrow> pyval \<Rightarrow> pyval" where
  "form_get form k dflt = (case map_of form k of Some v \<Rightarrow> PStr v | None \<Rightarrow> dflt)"

definition form_str :: "(string \<times> string) list \<Rightarrow> string \<Rightarrow> string \<Rightarrow> string" where
  "form_str form k dflt = (case map_of form k of Some v \<Rightarrow> v | None \<Rightarrow> dflt)"

text \<open>The local variables \<^verbatim>\<open>visible, sig_page, sig_x, sig_y, sig_width, sig_height\<close>.\<close>

record geometry =
  g_visible :: bool
  g_page :: int
  g_x :: real
  g_y :: real
  g_width :: real
  g_height :: real

text \<open>Sequencing of computations without effects that may raise.\<close>

definition and_then :: "exn + 'a \<Rightarrow> ('a \<Rightarrow> exn + 'b) \<Rightarrow> exn + 'b" where
  "and_then r f = (case r of Inl e \<Rightarrow> Inl e | Inr x \<Rightarrow> f x)"

text \<open>\<^verbatim>\<open>v[0]\<close>. The keys of a dict that came from JSON are strings, so \<^verbatim>\<open>0\<close> is no key.\<close>

definition first_item :: "libs \<Rightarrow> pyval \<Rightarrow> exn + pyval" where
  "first_item L v =
     (case v of
        PList (x # xs) \<Rightarrow> Inr x
      | PList [] \<Rightarrow> Inl (builtin_error L ''IndexError'' v)
      | PStr (c # cs) \<Rightarrow> Inr (PStr [c])
      | PStr [] \<Rightarrow> Inl (builtin_error L ''IndexError'' v)
      | PBytes (c # cs) \<Rightarrow> Inr (PInt (of_char c))
      | PBytes [] \<Rightarrow> Inl (builtin_error L ''IndexError'' v)
      | PDict kvs \<Rightarrow> Inl (builtin_error L ''KeyError'' (PInt 0))
      | _ \<Rightarrow> Inl (builtin_error L ''TypeError'' v))"

text \<open>Lines 255 to 259: \<^verbatim>\<open>json.loads\<close> under a bare \<^verbatim>\<open>except\<close>.\<close>

definition parse_signature_boxes :: "libs \<Rightarrow> (string \<times> string) list \<Rightarrow> pyval" where
  "parse_signature_boxes L form =
     (case json_loads L (form_str form ''signature_boxes'' ''[]'') of
        Inl e \<Rightarrow> PList []
      | Inr v \<Rightarrow> v)"

text \<open>Lines 264 to 269: the geometry read from a box.\<close>

definition box_geometry :: "libs \<Rightarrow> pyval \<Rightarrow> exn + geometry" where
  "box_geometry L bx =
     and_then (and_then (dict_get L bx ''page'' (PInt 1)) (py_int L)) (\<lambda>page.
     and_then (and_then (dict_get L bx ''x'' (PInt 50)) (py_float L)) (\<lambda>sig_x.
     and_then (and_then (dict_get L bx ''y'' (PInt 50)) (py_float L)) (\<lambda>sig_y.
     and_then (and_then (dict_get L bx ''width'' (PInt 200)) (py_float L)) (\<lambda>sig_width.
     and_then (and_then (dict_get L bx ''height'' (PInt 70)) (py_float L)) (\<lambda>sig_height.
     Inr \<lparr>g_visible = True, g_page = page - 1, g_x = sig_x, g_y = sig_y,
          g_width = sig_width, g_height = sig_height\<rparr>)))))"

text \<open>Lines 271 to 276: the geometry read from the form fields.\<close>

definition form_geometry :: "libs \<Rightarrow> (string \<times> string) list \<Rightarrow> exn + geometry" where
  "form_geometry L form =
     (let visible = (form_get form ''visible'' (PStr ''true'') = PStr ''true'') in
      and_then (py_int L (form_get form ''page'' (PInt 1))) (\<lambda>page.
      and_then (py_float L (form_get form ''x'' (PInt 50))) (\<lambda>sig_x.
      and_then (py_float L (form_get form ''y'' (PInt 50))) (\<lambda>sig_y.
      and_then (py_float L (form_get form ''width'' (PInt 200))) (\<lambda>sig_width.
      and_then (py_float L (form_get form ''height'' (PInt 70))) (\<lambda>sig_height.
      Inr \<lparr>g_visible = visible, g_page = page - 1, g_x = sig_x, g_y = sig_y,
           g_width = sig_width, g_height = sig_height\<rparr>))))))"

text \<open>Lines 253 to 276.\<close>

definition signature_geometry :: "libs \<Rightarrow> (string \<times> string) list \<Rightarrow> exn + geometry" where
  "signature_geometry L form =
     (let signature_boxes = parse_signature_boxes L form in
      if truthy signature_boxes then and_then (first_item L signature_boxes) (box_geometry L)
      else form_geometry L form)"

text \<open>
  What python-pkcs11 answers (\<open>t_get_slots\<close>: the \<^verbatim>\<open>slot_id\<close> of each slot of
  \<^verbatim>\<open>lib.get_slots(token_present=True)\<close>, in order), what pyHanko answers (\<open>p_kids\<close>: the array
  \<^verbatim>\<open>pdf_reader.root['/Pages']['/Kids']\<close>, each entry given by its own \<^verbatim>\<open>/MediaBox\<close> if it has
  one), and what the file system answers.
\<close>

record token =
  t_lib :: "string \<Rightarrow> exn option"
  t_get_slots :: "exn + int list"
  t_get_token :: "int \<Rightarrow> exn option"
  t_open :: "int \<Rightarrow> string \<Rightarrow> exn option"
  t_close :: "exn option"

record pyhanko =
  p_reader :: "bytes \<Rightarrow> exn option"
  p_from_reader :: "exn option"
  p_kids :: "exn + (real list option) list"
  p_append_field :: "sig_field_spec \<Rightarrow> exn option"
  p_sign_pdf :: "exn + bytes"

record disk =
  d_write :: "string \<Rightarrow> exn option"
  d_zip_open :: "string \<Rightarrow> exn option"
  d_zip_writestr :: "pyval \<Rightarrow> exn option"
  d_zip_close :: "exn option"
  d_reveal :: "string \<Rightarrow> exn option"

text \<open>Lines 343 and 344: the height of the page from the media box of \<^verbatim>\<open>page_obj\<close>.\<close>

definition page_height :: "libs \<Rightarrow> real list option \<Rightarrow> exn + real" where
  "page_height L mb =
     (let media_box = (case mb of Some m \<Rightarrow> m | None \<Rightarrow> [0, 0, 612, 792]) in
      case list_index media_box 3 of
        None \<Rightarrow> Inl (builtin_error L ''IndexError'' (PInt 3))
      | Some y1 \<Rightarrow>
          (case list_index media_box 1 of
             None \<Rightarrow> Inl (builtin_error L ''IndexError'' (PInt 1))
           | Some y0 \<Rightarrow> Inr (y1 - y0)))"

text \<open>Lines 347 to 353: the field specification.\<close>

definition make_spec :: "geometry \<Rightarrow> real \<Rightarrow> sig_field_spec" where
  "make_spec g page_h =
     (let pdf_y = page_h - g_y g - g_height g in
      \<lparr>on_page = g_page g,
       box = (g_x g, pdf_y, g_x g + g_width g, pdf_y + g_height g)\<rparr>)"

text \<open>Lines 339 to 354: the branch \<^verbatim>\<open>if visible:\<close>.\<close>

definition add_field :: "libs \<Rightarrow> pyhanko \<Rightarrow> geometry \<Rightarrow> unit io" where
  "add_field L P g =
     io_bind (call PagesKids (p_kids P)) (\<lambda>kids.
     io_bind (lift (case list_index kids (g_page g) of
                      None \<Rightarrow> Inl (builtin_error L ''IndexError'' (PInt (g_page g)))
                    | Some page_obj \<Rightarrow> Inr page_obj)) (\<lambda>page_obj.
     io_bind (lift (page_height L page_obj)) (\<lambda>page_h.
     call (AppendSignatureField (make_spec g page_h))
          (answer (p_append_field P (make_spec g page_h))))))"

text \<open>\<^verbatim>\<open>os.path.join(a, b)\<close> of posixpath, for two components.\<close>

definition path_join :: "string \<Rightarrow> string \<Rightarrow> string" where
  "path_join a b =
     (if starts_with ''/'' b then b
      else if a = [] \<or> last a = CHR ''/'' then a @ b
      else a @ ''/'' @ b)"

text \<open>The JSON of a successful signing (lines 416 to 421).\<close>

definition sign_success :: "libs \<Rightarrow> string \<Rightarrow> bytes \<Rightarrow> pyval" where
  "sign_success L output_filename output_data =
     PDict [(''success'', PBool True),
            (''filename'', PStr output_filename),
            (''data'', PStr (b64encode L output_data)),
            (''size'', PInt (int (length output_data)))]"

text \<open>
  The body of the \<^verbatim>\<open>try\<close> block (lines 283 to 421). The constructors of pyHanko's plain
  objects (signer, metadata, stamp style) have no effect and are not logged.
\<close>

definition sign_body ::
  "libs \<Rightarrow> config \<Rightarrow> token \<Rightarrow> pyhanko \<Rightarrow> disk \<Rightarrow> (string \<times> string) list \<Rightarrow> upload
     \<Rightarrow> int \<Rightarrow> string \<Rightarrow> geometry \<Rightarrow> outcome io" where
  "sign_body L cfg T P D form pdf_file slot_id pin g =
     (let pdf_data = up_content pdf_file;
          reason = form_str form ''reason'' ''Document signed with Romanian CEI'';
          location = form_str form ''location'' ''Romania'';
          contact = form_str form ''contact'' [] in
     io_bind (lift (get_pkcs11_lib_path L cfg (form_get form ''pkcs11_path'' PNone))) (\<lambda>lib_path.
     io_bind (call (Pkcs11Lib lib_path) (answer (t_lib T lib_path))) (\<lambda>_.
     io_bind (call GetSlots (t_get_slots T)) (\<lambda>slots.
     if slot_id \<notin> set slots then
       ret (Response (error_json (''Slot '' @ show_int slot_id @ '' not found'')) 400)
     else
     io_bind (call (GetToken slot_id) (answer (t_get_token T slot_id))) (\<lambda>_.
     io_bind (call (TokenOpen slot_id pin) (answer (t_open T slot_id pin))) (\<lambda>_.
     io_bind (set_session True) (\<lambda>_.
     io_bind (call (ReadPdf pdf_data) (answer (p_reader P pdf_data))) (\<lambda>_.
     io_bind (call FromReader (answer (p_from_reader P))) (\<lambda>_.
     io_bind (if g_visible g then add_field L P g else ret ()) (\<lambda>_.
     io_bind (call (SignPdf reason location (if contact \<noteq> [] then Some contact else None))
                   (p_sign_pdf P)) (\<lambda>output_data.
     io_bind (call SessionClose (answer (t_close T))) (\<lambda>_.
     io_bind (set_session False) (\<lambda>_.
     (let output_filename = ''signed_'' @ secure_filename L (up_filename pdf_file);
          output_path = path_join (upload_folder cfg) output_filename in
     io_bind (call (WriteFile output_path output_data) (answer (d_write D output_path))) (\<lambda>_.
     ret (Response (sign_success L output_filename output_data) 200))))))))))))))))"

text \<open>The clause \<^verbatim>\<open>except pkcs11.PKCS11Error\<close> (lines 423 to 428).\<close>

definition sign_pkcs11_error :: "exn \<Rightarrow> outcome" where
  "sign_pkcs11_error e =
     (if str_in ''PIN'' (upper (exn_str e)) then
        Response (error_json ''Incorrect PIN or PIN locked'') 401
      else Response (error_json (''Smart card error ('' @ exn_type e @ ''): '' @ exn_str e)) 500)"

text \<open>The clause \<^verbatim>\<open>except Exception\<close> (lines 429 to 434), without its logging.\<close>

definition sign_other_error :: "exn \<Rightarrow> outcome" where
  "sign_other_error e =
     (let error_type = exn_type e;
          error_msg = (if exn_str e \<noteq> [] then exn_str e else error_type)
      in Response (error_json (error_type @ '': '' @ error_msg)) 500)"

text \<open>
  The clause \<^verbatim>\<open>finally\<close> (lines 435 to 441): \<^verbatim>\<open>session.close()\<close> when the variable holds a
  session; what the call raises is dropped.
\<close>

definition sign_finally :: "st \<Rightarrow> st" where
  "sign_finally s = (if session_var s then s\<lparr>trace := trace s @ [SessionClose]\<rparr> else s)"

text \<open>The \<^verbatim>\<open>try\<close> statement (lines 282 to 441).\<close>

definition sign_try ::
  "libs \<Rightarrow> config \<Rightarrow> token \<Rightarrow> pyhanko \<Rightarrow> disk \<Rightarrow> (string \<times> string) list \<Rightarrow> upload
     \<Rightarrow> int \<Rightarrow> string \<Rightarrow> geometry \<Rightarrow> st \<Rightarrow> outcome \<times> st" where
  "sign_try L cfg T P D form pdf_file slot_id pin g s =
     (case sign_body L cfg T P D form pdf_file slot_id pin g s of
        (Inr resp, s') \<Rightarrow> (resp, sign_finally s')
      | (Inl e, s') \<Rightarrow>
          if exn_class e = PKCS11Error then (sign_pkcs11_error e, sign_finally s')
          else (sign_other_error e, sign_finally (s'\<lparr>trace := trace s' @ [PrintExc]\<rparr>)))"

text \<open>\<^verbatim>\<open>api_sign_pdf()\<close>.\<close>

definition api_sign_pdf ::
  "libs \<Rightarrow> config \<Rightarrow> token \<Rightarrow> pyhanko \<Rightarrow> disk \<Rightarrow> sign_request \<Rightarrow> outcome \<times> st" where
  "api_sign_pdf L cfg T P D rq =
     (if \<not> PYHANKO_AVAILABLE cfg then (Response (error_json ''pyHanko not installed'') 500, st0)
      else
        (case rq_pdf rq of
           None \<Rightarrow> (Response (error_json ''No PDF file provided'') 400, st0)
         | Some pdf_file \<Rightarrow>
             (case py_int L (form_get (rq_form rq) ''slot'' (PInt 2)) of
                Inl e \<Rightarrow> (Raised e, st0)
              | Inr slot_id \<Rightarrow>
                  (let pin = strip (form_str (rq_form rq) ''pin'' []) in
                   case signature_geometry L (rq_form rq) of
                     Inl e \<Rightarrow> (Raised e, st0)
                   | Inr g \<Rightarrow>
                       if pin = [] then (Response (error_json ''PIN required'') 400, st0)
                       else sign_try L cfg T P D (rq_form rq) pdf_file slot_id pin g st0))))"

section \<open>POST /api/save-files\<close>

text \<open>\<^verbatim>\<open>s.rfind(c)\<close>: the last index of a character, or \<open>-1\<close>.\<close>

definition rfind :: "char \<Rightarrow> string \<Rightarrow> int" where
  "rfind c s =
     (if c \<in> set s then int (length s) - 1 - int (length (takeWhile (\<lambda>x. x \<noteq> c) (rev s)))
      else - 1)"

text \<open>
  \<^verbatim>\<open>os.path.splitext(p)\<close> of posixpath: the extension starts at the last dot, if that dot
  comes after the last slash and after a character of the file name that is no dot.
\<close>

definition splitext :: "string \<Rightarrow> string \<times> string" where
  "splitext p =
     (let sepIndex = rfind CHR ''/'' p;
          dotIndex = rfind CHR ''.'' p
      in if dotIndex > sepIndex
            \<and> list_ex (\<lambda>c. c \<noteq> CHR ''.'')
                 (take (nat (dotIndex - (sepIndex + 1))) (drop (nat (sepIndex + 1)) p))
         then (take (nat dotIndex) p, drop (nat dotIndex) p)
         else (p, []))"

text \<open>The name tried at a value of \<^verbatim>\<open>counter\<close>: \<^verbatim>\<open>f"{base}_{counter}{ext}"\<close>.\<close>

definition candidate :: "string \<Rightarrow> string \<Rightarrow> nat \<Rightarrow> string" where
  "candidate base ext counter = base @ ''_'' @ show_nat counter @ ext"

definition digit_val :: "char \<Rightarrow> nat" where
  "digit_val c = (case digit_of c of Some d \<Rightarrow> d | None \<Rightarrow> 0)"

definition read_nat :: "string \<Rightarrow> nat" where
  "read_nat s = foldl (\<lambda>a c. 10 * a + digit_val c) 0 s"

lemma digit_val_digit_char: "d < 10 \<Longrightarrow> digit_val (digit_char d) = d"
proof -
  assume "d < 10"
  then have "d \<in> {0, 1, 2, 3, 4, 5, 6, 7, 8, 9}" by auto
  then show ?thesis
    by (auto simp: digit_val_def digit_char_def digit_of_def)
qed

lemma read_nat_snoc: "read_nat (s @ [c]) = 10 * read_nat s + digit_val c"
  by (simp add: read_nat_def)

lemma read_show_nat: "read_nat (show_nat n) = n"
proof (induction n rule: show_nat.induct)
  case (1 n)
  show ?case
  proof (cases "n < 10")
    case True
    then show ?thesis by (simp add: read_nat_def digit_val_digit_char)
  next
    case False
    then have "read_nat (show_nat n)
        = 10 * read_nat (show_nat (n div 10)) + digit_val (digit_char (n mod 10))"
      by (subst show_nat.simps) (simp add: read_nat_snoc)
    also have "\<dots> = 10 * (n div 10) + n mod 10"
      using 1 False by (simp add: digit_val_digit_char)
    finally show ?thesis by simp
  qed
qed

lemma show_nat_inj: "show_nat m = show_nat n \<Longrightarrow> m = n"
  by (metis read_show_nat)

lemma candidate_inj: "inj (candidate base ext)"
proof (rule injI)
  fix m n assume "candidate base ext m = candidate base ext n"
  then have "show_nat m = show_nat n" by (simp add: candidate_def)
  then show "m = n" by (rule show_nat_inj)
qed

lemma finite_candidates: "finite {k. candidate base ext k \<in> set fs}"
proof -
  have "{k. candidate base ext k \<in> set fs} = candidate base ext -` set fs" by auto
  then show ?thesis by (simp add: finite_vimageI candidate_inj)
qed

text \<open>
  The loop of lines 467 to 470 (and 485 to 488):
  \<^verbatim>\<open>while os.path.exists(file_path): file_path = f"{base}_{counter}{ext}"; counter += 1\<close>.
  It ends because only finitely many paths exist and the names tried are all different.
\<close>

function dedupe :: "string list \<Rightarrow> string \<Rightarrow> string \<Rightarrow> string \<Rightarrow> nat \<Rightarrow> string" where
  "dedupe fs base ext file_path counter =
     (if file_path \<in> set fs then dedupe fs base ext (candidate base ext counter) (counter + 1)
      else file_path)"
  by pat_completeness auto
termination
proof (relation "measure (\<lambda>(fs, base, ext, file_path, counter).
         card {k. counter \<le> k \<and> candidate base ext k \<in> set fs}
         + (if file_path \<in> set fs then 1 else 0))")
  show "wf (measure (\<lambda>(fs, base, ext, file_path, counter).
         card {k. counter \<le> k \<and> candidate base ext k \<in> set fs}
         + (if file_path \<in> set fs then 1 else 0)))" by simp
next
  fix fs :: "string list" and base ext file_path :: string and counter :: nat
  assume "file_path \<in> set fs"
  let ?A = "{k. counter \<le> k \<and> candidate base ext k \<in> set fs}"
  let ?B = "{k. counter + 1 \<le> k \<and> candidate base ext k \<in> set fs}"
  have fin: "finite ?A" by (rule finite_subset [OF _ finite_candidates [of base ext fs]]) auto
  have "card ?B + (if candidate base ext counter \<in> set fs then 1 else 0) = card ?A"
  proof (cases "candidate base ext counter \<in> set fs")
    case True
    then have "?A = insert counter ?B" by (auto simp: le_Suc_eq)
    moreover have "counter \<notin> ?B" by simp
    moreover have "finite ?B" by (rule finite_subset [OF _ fin]) auto
    ultimately show ?thesis using True by simp
  next
    case False
    have "?A = ?B"
    proof (rule set_eqI)
      fix k show "k \<in> ?A \<longleftrightarrow> k \<in> ?B"
        using False by (cases "k = counter") auto
    qed
    then show ?thesis using False by simp
  qed
  then show "((fs, base, ext, candidate base ext counter, counter + 1),
              (fs, base, ext, file_path, counter))
      \<in> measure (\<lambda>(fs, base, ext, file_path, counter).
         card {k. counter \<le> k \<and> candidate base ext k \<in> set fs}
         + (if file_path \<in> set fs then 1 else 0))"
    using \<open>file_path \<in> set fs\<close> by simp
qed

declare dedupe.simps [simp del]

text \<open>
  Lines 466 to 470, and again 484 to 488: split the extension off, then try the path itself
  and the numbered names until one does not exist.
\<close>

definition unique_path :: "string list \<Rightarrow> string \<Rightarrow> string" where
  "unique_path fs file_path =
     (case splitext file_path of
        (base, ext) \<Rightarrow> dedupe fs base ext file_path 1)"

text \<open>\<^verbatim>\<open>len(v)\<close>, \<^verbatim>\<open>for x in v\<close>, \<^verbatim>\<open>v[k]\<close> and \<^verbatim>\<open>k in v\<close> for a string \<open>k\<close>, and the check that an
  argument of \<^verbatim>\<open>os.path.join\<close> is a string.\<close>

definition py_len :: "libs \<Rightarrow> pyval \<Rightarrow> exn + nat" where
  "py_len L v =
     (case v of
        PList xs \<Rightarrow> Inr (length xs)
      | PStr s \<Rightarrow> Inr (length s)
      | PBytes b \<Rightarrow> Inr (length b)
      | PDict kvs \<Rightarrow> Inr (length (remdups (map fst kvs)))
      | _ \<Rightarrow> Inl (builtin_error L ''TypeError'' v))"

definition py_iter :: "libs \<Rightarrow> pyval \<Rightarrow> exn + pyval list" where
  "py_iter L v =
     (case v of
        PList xs \<Rightarrow> Inr xs
      | PStr s \<Rightarrow> Inr (map (\<lambda>c. PStr [c]) s)
      | PBytes b \<Rightarrow> Inr (map (\<lambda>c. PInt (of_char c)) b)
      | PDict kvs \<Rightarrow> Inr (map PStr (remdups (map fst kvs)))
      | _ \<Rightarrow> Inl (builtin_error L ''TypeError'' v))"

definition subscript :: "libs \<Rightarrow> pyval \<Rightarrow> string \<Rightarrow> exn + pyval" where
  "subscript L v k =
     (case v of
        PDict kvs \<Rightarrow> (case map_of kvs k of
                        Some x \<Rightarrow> Inr x
                      | None \<Rightarrow> Inl (builtin_error L ''KeyError'' (PStr k)))
      | _ \<Rightarrow> Inl (builtin_error L ''TypeError'' v))"

definition contains_key :: "libs \<Rightarrow> pyval \<Rightarrow> string \<Rightarrow> exn + bool" where
  "contains_key L v k =
     (case v of
        PDict kvs \<Rightarrow> Inr (k \<in> set (map fst kvs))
      | PList xs \<Rightarrow> Inr (PStr k \<in> set xs)
      | PStr s \<Rightarrow> Inr (str_in k s)
      | _ \<Rightarrow> Inl (builtin_error L ''TypeError'' v))"

definition as_str :: "libs \<Rightarrow> pyval \<Rightarrow> exn + string" where
  "as_str L v = (case v of PStr s \<Rightarrow> Inr s | _ \<Rightarrow> Inl (builtin_error L ''TypeError'' v))"

text \<open>The branch for one file (lines 462 to 478).\<close>

definition save_single :: "libs \<Rightarrow> config \<Rightarrow> disk \<Rightarrow> pyval \<Rightarrow> (string list) io" where
  "save_single L cfg D files_data =
     io_bind (lift (first_item L files_data)) (\<lambda>file_info.
     io_bind (lift (and_then (subscript L file_info ''name'') (as_str L))) (\<lambda>name.
     (let file_path = unique_path (existing_paths cfg) (path_join (downloads_folder cfg) name) in
     io_bind (lift (and_then (subscript L file_info ''data'') (b64decode L))) (\<lambda>file_bytes.
     io_bind (call (WriteFile file_path file_bytes) (answer (d_write D file_path))) (\<lambda>_.
     io_bind (call (Reveal file_path) (answer (d_reveal D file_path))) (\<lambda>_.
     ret [file_path]))))))"

text \<open>
  The loop that fills the archive (lines 491 to 493). \<^verbatim>\<open>zf.writestr\<close> receives the name as
  it stands in the request.
\<close>

fun zip_loop :: "libs \<Rightarrow> disk \<Rightarrow> pyval list \<Rightarrow> unit io" where
  "zip_loop L D [] = ret ()"
| "zip_loop L D (file_info # rest) =
     io_bind (lift (and_then (subscript L file_info ''data'') (b64decode L))) (\<lambda>file_bytes.
     io_bind (lift (subscript L file_info ''name'')) (\<lambda>name.
     io_bind (call (ZipWritestr name file_bytes) (answer (d_zip_writestr D name))) (\<lambda>_.
     zip_loop L D rest)))"

text \<open>The \<^verbatim>\<open>with\<close> statement: the archive is closed however the block ends.\<close>

definition with_zip :: "disk \<Rightarrow> unit io \<Rightarrow> unit io" where
  "with_zip D blk =
     (\<lambda>s. case blk s of
             (r, s') \<Rightarrow>
               (case d_zip_close D of
                  None \<Rightarrow> (r, s'\<lparr>trace := trace s' @ [ZipClose]\<rparr>)
                | Some e \<Rightarrow> (Inl e, s'\<lparr>trace := trace s' @ [ZipClose]\<rparr>)))"

text \<open>The branch for any other number of files (lines 481 to 498).\<close>

definition save_zip :: "libs \<Rightarrow> config \<Rightarrow> disk \<Rightarrow> pyval \<Rightarrow> (string list) io" where
  "save_zip L cfg D files_data =
     (let zip_path = unique_path (existing_paths cfg)
                       (path_join (downloads_folder cfg) ''signed_documents.zip'') in
     io_bind (call (ZipOpen zip_path) (answer (d_zip_open D zip_path))) (\<lambda>_.
     io_bind (with_zip D (io_bind (lift (py_iter L files_data)) (zip_loop L D))) (\<lambda>_.
     io_bind (call (Reveal zip_path) (answer (d_reveal D zip_path))) (\<lambda>_.
     ret [zip_path]))))"

text \<open>The body of the \<^verbatim>\<open>try\<close> block (lines 459 to 498); it yields \<^verbatim>\<open>saved_files\<close>.\<close>

definition save_body :: "libs \<Rightarrow> config \<Rightarrow> disk \<Rightarrow> pyval \<Rightarrow> (string list) io" where
  "save_body L cfg D files_data =
     io_bind (lift (py_len L files_data)) (\<lambda>n.
     if n = 1 then save_single L cfg D files_data else save_zip L cfg D files_data)"

definition save_success :: "string list \<Rightarrow> pyval" where
  "save_success saved_files =
     PDict [(''success'', PBool True), (''saved_files'', PList (map PStr saved_files))]"

text \<open>The \<^verbatim>\<open>try\<close> statement (lines 458 to 508).\<close>

definition save_try :: "libs \<Rightarrow> config \<Rightarrow> disk \<Rightarrow> pyval \<Rightarrow> st \<Rightarrow> outcome \<times> st" where
  "save_try L cfg D files_data s =
     (case save_body L cfg D files_data s of
        (Inr saved_files, s') \<Rightarrow> (Response (save_success saved_files) 200, s')
      | (Inl e, s') \<Rightarrow>
          (Response (error_json (exn_str e)) 500, s'\<lparr>trace := trace s' @ [PrintExc]\<rparr>))"

text \<open>\<^verbatim>\<open>api_save_files()\<close>.\<close>

definition api_save_files :: "libs \<Rightarrow> config \<Rightarrow> disk \<Rightarrow> exn + pyval \<Rightarrow> outcome \<times> st" where
  "api_save_files L cfg D body =
     (case body of
        Inl e \<Rightarrow> (Raised e, st0)
      | Inr data \<Rightarrow>
          if \<not> truthy data then (Response (error_json ''No files provided'') 400, st0)
          else
            (case contains_key L data ''files'' of
               Inl e \<Rightarrow> (Raised e, st0)
             | Inr present \<Rightarrow>
                 if \<not> present then (Response (error_json ''No files provided'') 400, st0)
                 else
                   (case subscript L data ''files'' of
                      Inl e \<Rightarrow> (Raised e, st0)
                    | Inr files_data \<Rightarrow> save_try L cfg D files_data st0)))"

section \<open>Test doubles\<close>

text \<open>
  Concrete libraries, drivers and disks on which the handlers are run: a card with two
  slots whose PIN is 1234 and that holds one certificate that parses and one that does not,
  a PDF with two pages, and a Downloads folder that already has three files.
\<close>

definition demo_exn :: "exn_class \<Rightarrow> string \<Rightarrow> string \<Rightarrow> exn" where
  "demo_exn c ty msg = \<lparr>exn_class = c, exn_type = ty, exn_str = msg\<rparr>"

definition demo_libs :: libs where
  "demo_libs =
     \<lparr>float_of_str = (\<lambda>s. map_option of_int (int_of_str s)),
      str_other = (\<lambda>v. ''<object>''),
      err_msg = (\<lambda>ty v. ''bad value''),
      decode_replace = (\<lambda>b. b),
      chr_join = (\<lambda>xs. Inr (map (\<lambda>v. case v of PInt i \<Rightarrow> char_of i | _ \<Rightarrow> CHR ''?'') xs)),
      json_loads = (\<lambda>s. if s = ''[]'' then Inr (PList [])
                        else if s = ''[{\"page\": 2}]'' then Inr (PList [PDict [(''page'', PInt 2)]])
                        else if s = ''[{\"page\": 2}, {\"page\": 5}]''
                          then Inr (PList [PDict [(''page'', PInt 2)], PDict [(''page'', PInt 5)]])
                        else Inl (demo_exn OtherException ''JSONDecodeError'' ''Expecting value'')),
      b64encode = (\<lambda>b. ''b64:'' @ b),
      b64decode = (\<lambda>v. case v of
                           PStr s \<Rightarrow> if starts_with ''b64:'' s then Inr (drop 4 s)
                                     else Inl (demo_exn OtherException ''Error'' ''Incorrect padding'')
                         | _ \<Rightarrow> Inl (demo_exn OtherException ''TypeError'' ''bad value'')),
      secure_filename = (\<lambda>s. filter (\<lambda>c. c \<noteq> CHR ''/'') s),
      load_der_x509 = (\<lambda>b. if b = ''DER-OK'' then Some (''CN=Ion Popescu'', ''CN=CEI CA'', ''2030-01-01T00:00:00+00:00'')
                          else None)\<rparr>"

definition demo_config :: config where
  "demo_config =
     \<lparr>PKCS11_AVAILABLE = True, PYHANKO_AVAILABLE = True, env_PKCS11_LIB = Some ''/opt/env.so'',
      existing_paths = [''/home/u/Downloads/a.pdf'', ''/home/u/Downloads/a_1.pdf'',
                        ''/home/u/Downloads/signed_documents.zip''],
      upload_folder = ''/tmp/up'', downloads_folder = ''/home/u/Downloads''\<rparr>"

definition demo_card :: card where
  "demo_card =
     \<lparr>c_load = (\<lambda>p. None),
      c_getSlotList = Inr [0, 2],
      c_openSession = (\<lambda>i. None),
      c_login = (\<lambda>pin. if pin = ''1234'' then None
                        else Some (demo_exn PyKCS11Error ''PyKCS11Error'' ''CKR_PIN_INCORRECT (0x000000A0)'')),
      c_findObjects = Inr [7, 8],
      c_getAttributeValue = (\<lambda>h. Inr (Some (if h = 7 then ''DER-OK'' else ''DER-BAD''), PStr ''Certificate'')),
      c_logout = None,
      c_closeSession = None\<rparr>"

definition demo_token :: token where
  "demo_token =
     \<lparr>t_lib = (\<lambda>p. None), t_get_slots = Inr [0, 2], t_get_token = (\<lambda>i. None),
      t_open = (\<lambda>i pin. if pin = ''1234'' then None
                         else Some (demo_exn PKCS11Error ''PinIncorrect'' [])),
      t_close = None\<rparr>"

definition demo_pdf :: pyhanko where
  "demo_pdf =
     \<lparr>p_reader = (\<lambda>b. None), p_from_reader = None,
      p_kids = Inr [None, Some [0, 0, 595, 842]],
      p_append_field = (\<lambda>sp. None),
      p_sign_pdf = Inr ''SIGNED''\<rparr>"

definition demo_disk :: disk where
  "demo_disk = \<lparr>d_write = (\<lambda>p. None), d_zip_open = (\<lambda>p. None), d_zip_writestr = (\<lambda>n. None),
                d_zip_close = None, d_reveal = (\<lambda>p. None)\<rparr>"

definition wrong_pin_request :: pyval where
  "wrong_pin_request = PDict [(''slot'', PInt 2), (''pin'', PStr ''0000'')]"

definition demo_upload :: upload where
  "demo_upload = \<lparr>up_filename = ''doc.pdf'', up_content = ''%PDF-1.7''\<rparr>"

definition demo_geometry :: geometry where
  "demo_geometry = \<lparr>g_visible = True, g_page = 1, g_x = 50, g_y = 50, g_width = 200, g_height = 70\<rparr>"

definition good_request :: pyval where
  "good_request = PDict [(''slot'', PInt 2), (''pin'', PStr ''1234'')]"

definition broken_card :: card where
  "broken_card = demo_card\<lparr>c_findObjects := Inl (demo_exn OtherException ''RuntimeError'' ''boom'')\<rparr>"

definition broken_pdf :: pyhanko where
  "broken_pdf = demo_pdf\<lparr>p_reader := \<lambda>b. Some (demo_exn OtherException ''PdfReadError'' [])\<rparr>"






definition file_a :: pyval where
  "file_a = PDict [(''name'', PStr ''a.pdf''), (''data'', PStr ''b64:first'')]"

definition file_a_again :: pyval where
  "file_a_again = PDict [(''name'', PStr ''a.pdf''), (''data'', PStr ''b64:second'')]"

definition file_outside :: pyval where
  "file_outside = PDict [(''name'', PStr ''/tmp/evil.pdf''), (''data'', PStr ''b64:x'')]"

section \<open>The words of the specification\<close>

text \<open>
  The text contains \<^verbatim>\<open>PIN\<close> in any mix of upper and lower case: three characters in a
  row that are a p, an i and an n.
\<close>

definition contains_pin_ci :: "string \<Rightarrow> bool" where
  "contains_pin_ci m =
     (\<exists>pre a b c post. m = pre @ [a, b, c] @ post
        \<and> (a = CHR ''p'' \<or> a = CHR ''P'')
        \<and> (b = CHR ''i'' \<or> b = CHR ''I'')
        \<and> (c = CHR ''n'' \<or> c = CHR ''N''))"





definition field_from :: "libs \<Rightarrow> pyhanko \<Rightarrow> geometry \<Rightarrow> sig_field_spec \<Rightarrow> bool" where
  "field_from L P g spec =
     (\<exists>kids mb h. p_kids P = Inr kids \<and> list_index kids (g_page g) = Some mb
        \<and> page_height L mb = Inr h \<and> spec = make_spec g h)"

text \<open>
  A path that lies directly in a directory: the directory, a slash unless the directory
  already ends with one, and a name without a slash.
\<close>

definition dir_prefix :: "string \<Rightarrow> string" where
  "dir_prefix dir = (if dir = [] \<or> last dir = CHR ''/'' then dir else dir @ ''/'')"

definition directly_in :: "string \<Rightarrow> string \<Rightarrow> bool" where
  "directly_in dir p = (\<exists>name. CHR ''/'' \<notin> set name \<and> p = dir_prefix dir @ name)"

text \<open>The path a file or archive of a given plain name is saved under.\<close>

definition fresh_path :: "config \<Rightarrow> string \<Rightarrow> string" where
  "fresh_path cfg name = unique_path (existing_paths cfg) (path_join (downloads_folder cfg) name)"

text \<open>
  A file of the request that the handler can save: a JSON object with a string \<^verbatim>\<open>name\<close> and
  a \<^verbatim>\<open>data\<close> that base64 decodes; its name and its bytes.
\<close>

definition file_ok :: "libs \<Rightarrow> pyval \<Rightarrow> bool" where
  "file_ok L f =
     (\<exists>kvs n d b. f = PDict kvs \<and> map_of kvs ''name'' = Some (PStr n)
        \<and> map_of kvs ''data'' = Some d \<and> b64decode L d = Inr b)"

definition file_name :: "pyval \<Rightarrow> string" where
  "file_name f =
     (case f of
        PDict kvs \<Rightarrow> (case map_of kvs ''name'' of Some (PStr n) \<Rightarrow> n | _ \<Rightarrow> [])
      | _ \<Rightarrow> [])"

definition file_bytes :: "libs \<Rightarrow> pyval \<Rightarrow> bytes" where
  "file_bytes L f =
     (case f of
        PDict kvs \<Rightarrow> (case map_of kvs ''data'' of
                        Some d \<Rightarrow> (case b64decode L d of Inr b \<Rightarrow> b | Inl e \<Rightarrow> [])
                      | None \<Rightarrow> [])
      | _ \<Rightarrow> [])"

section \<open>Facts about the built-ins\<close>

lemma starts_with_iff: "starts_with sub s \<longleftrightarrow> (\<exists>q. s = sub @ q)"
  by (induction sub s rule: starts_with.induct) auto

lemma str_in_iff: "str_in sub s \<longleftrightarrow> (\<exists>p q. s = p @ sub @ q)"
proof (induction s)
  case Nil
  then show ?case by auto
next
  case (Cons c cs)
  show ?case
  proof
    assume "str_in sub (c # cs)"
    then consider "starts_with sub (c # cs)" | "str_in sub cs" by auto
    then show "\<exists>p q. c # cs = p @ sub @ q"
    proof cases
      case 1
      then obtain q where "c # cs = sub @ q" by (auto simp: starts_with_iff)
      then have "c # cs = [] @ sub @ q" by simp
      then show ?thesis by blast
    next
      case 2
      then obtain p q where "cs = p @ sub @ q" using Cons.IH by auto
      then have "c # cs = (c # p) @ sub @ q" by simp
      then show ?thesis by blast
    qed
  next
    assume "\<exists>p q. c # cs = p @ sub @ q"
    then obtain p q where pq: "c # cs = p @ sub @ q" by auto
    show "str_in sub (c # cs)"
    proof (cases p)
      case Nil
      then have "starts_with sub (c # cs)" using pq by (auto simp: starts_with_iff)
      then show ?thesis by simp
    next
      case (Cons a p')
      then have "cs = p' @ sub @ q" using pq by simp
      then have "str_in sub cs" using Cons.IH by blast
      then show ?thesis by simp
    qed
  qed
qed

section \<open>Driver path resolution and the status report\<close>

text \<open>
  Claim C5. The driver path is resolved in this order: a \<^verbatim>\<open>pkcs11_path\<close> of the request
  whose stripped value is not empty is used, stripped; otherwise (no \<^verbatim>\<open>pkcs11_path\<close>, or one
  that is empty once stripped) the value of the environment variable \<^verbatim>\<open>PKCS11_LIB\<close> is used
  if it is set, and the built-in default path if it is not. The request's value is a string
  here, as a path is.
\<close>

theorem lib_path_precedence:
  "(strip s \<noteq> [] \<longrightarrow> get_pkcs11_lib_path L cfg (PStr s) = Inr (strip s))
   \<and> (\<forall>c. (c = PNone \<or> (c = PStr s \<and> strip s = [])) \<longrightarrow>
          (\<forall>v. env_PKCS11_LIB cfg = Some v \<longrightarrow> get_pkcs11_lib_path L cfg c = Inr v)
        \<and> (env_PKCS11_LIB cfg = None \<longrightarrow> get_pkcs11_lib_path L cfg c = Inr DEFAULT_PKCS11_LIB))"
proof -
  have ne: "strip s \<noteq> [] \<Longrightarrow> s \<noteq> []" by (auto simp: strip_def)
  show ?thesis
    using ne by (auto simp: get_pkcs11_lib_path_def truthy_def)
qed

theorem lib_path_precedence_witness:
  "get_pkcs11_lib_path demo_libs demo_config (PStr '' /opt/custom.so '') = Inr ''/opt/custom.so''
   \<and> get_pkcs11_lib_path demo_libs demo_config PNone = Inr ''/opt/env.so''
   \<and> get_pkcs11_lib_path demo_libs demo_config (PStr ''  '') = Inr ''/opt/env.so''
   \<and> get_pkcs11_lib_path demo_libs (demo_config\<lparr>env_PKCS11_LIB := None\<rparr>) PNone
       = Inr ''/Library/Application Support/com.idemia.idplug/lib/libidplug-pkcs11.2.7.0.dylib''"
proof -
  have s1: "strip '' /opt/custom.so '' = ''/opt/custom.so''" by (simp add: strip_def is_space_def)
  have s2: "strip ''  '' = []" by (simp add: strip_def is_space_def)
  have e1: "env_PKCS11_LIB demo_config = Some ''/opt/env.so''" by (simp add: demo_config_def)
  have e2: "env_PKCS11_LIB (demo_config\<lparr>env_PKCS11_LIB := None\<rparr>) = None" by simp
  show ?thesis
    using lib_path_precedence [of "'' /opt/custom.so ''" demo_libs demo_config]
      lib_path_precedence [of "''  ''" demo_libs demo_config]
      lib_path_precedence [of "''  ''" demo_libs "demo_config\<lparr>env_PKCS11_LIB := None\<rparr>"]
      s1 s2 e1 e2
    by (simp add: DEFAULT_PKCS11_LIB_def)
qed

text \<open>
  Claim C8. \<^verbatim>\<open>GET /api/status\<close> answers with status 200 and a JSON object of four entries:
  whether the import of PyKCS11 succeeded, whether the import block of the signing library
  succeeded, the configured driver path (the environment variable, or the default), and
  whether that path exists.
\<close>

theorem status_report:
  "api_status L cfg =
     Response (PDict [(''pkcs11_available'', PBool (PKCS11_AVAILABLE cfg)),
                      (''pyhanko_available'', PBool (PYHANKO_AVAILABLE cfg)),
                      (''pkcs11_lib_path'',
                         PStr (case env_PKCS11_LIB cfg of Some v \<Rightarrow> v | None \<Rightarrow> DEFAULT_PKCS11_LIB)),
                      (''pkcs11_lib_exists'',
                         PBool ((case env_PKCS11_LIB cfg of Some v \<Rightarrow> v | None \<Rightarrow> DEFAULT_PKCS11_LIB)
                                 \<in> set (existing_paths cfg)))]) 200"
  by (simp add: api_status_def get_pkcs11_lib_path_def truthy_def path_exists_def)

theorem status_report_witness:
  "api_status demo_libs (demo_config\<lparr>existing_paths := [''/opt/env.so'']\<rparr>) =
     Response (PDict [(''pkcs11_available'', PBool True),
                      (''pyhanko_available'', PBool True),
                      (''pkcs11_lib_path'', PStr ''/opt/env.so''),
                      (''pkcs11_lib_exists'', PBool True)]) 200"
  using status_report [of demo_libs "demo_config\<lparr>existing_paths := [''/opt/env.so'']\<rparr>"]
  by (simp add: demo_config_def)

lemmas demo_defs = demo_exn_def demo_libs_def demo_config_def demo_card_def demo_token_def
  demo_pdf_def demo_disk_def

lemmas io_defs = io_bind_def call_def lift_def ret_def answer_def st0_def set_session_def
  and_then_def

lemmas py_defs = dict_get_def py_int_def py_str_def py_float_def truthy_def strip_def
  is_space_def builtin_error_def int_of_str_def digit_of_def show_int_def show_int_list_def
  digit_char_def list_index_def first_item_def upper_def upper_char_def
  py_len_def py_iter_def subscript_def contains_key_def as_str_def error_json_def

lemmas certificate_defs = api_get_certificate_def certificate_try_def certificate_body_def
  get_pkcs11_lib_path_def certificate_pkcs11_error_def cert_entry_def label_of_def
  slot_unavailable_msg_def

lemmas sign_defs = api_sign_pdf_def sign_try_def sign_body_def sign_finally_def
  sign_pkcs11_error_def sign_other_error_def signature_geometry_def parse_signature_boxes_def
  box_geometry_def form_geometry_def form_get_def form_str_def add_field_def page_height_def
  make_spec_def path_join_def sign_success_def get_pkcs11_lib_path_def

lemma upper_char_P: "upper_char a = CHR ''P'' \<longleftrightarrow> a = CHR ''p'' \<or> a = CHR ''P''"
  by (auto simp: upper_char_def split: if_splits)

lemma upper_char_I: "upper_char a = CHR ''I'' \<longleftrightarrow> a = CHR ''i'' \<or> a = CHR ''I''"
  by (auto simp: upper_char_def split: if_splits)

lemma upper_char_N: "upper_char a = CHR ''N'' \<longleftrightarrow> a = CHR ''n'' \<or> a = CHR ''N''"
  by (auto simp: upper_char_def split: if_splits)

lemma pin_in_upper: "str_in ''PIN'' (upper m) \<longleftrightarrow> contains_pin_ci m"
proof
  assume "str_in ''PIN'' (upper m)"
  then obtain p q where "map upper_char m = p @ ''PIN'' @ q"
    by (auto simp: str_in_iff upper_def)
  then have "\<exists>pre a b c post. m = pre @ a # b # c # post
      \<and> upper_char a = CHR ''P'' \<and> upper_char b = CHR ''I'' \<and> upper_char c = CHR ''N''"
    by (auto simp: map_eq_append_conv) blast
  then show "contains_pin_ci m"
    unfolding contains_pin_ci_def by (auto simp: upper_char_P upper_char_I upper_char_N)
next
  assume "contains_pin_ci m"
  then obtain pre a b c post where m: "m = pre @ [a, b, c] @ post"
    and "upper_char a = CHR ''P''" "upper_char b = CHR ''I''" "upper_char c = CHR ''N''"
    unfolding contains_pin_ci_def by (auto simp: upper_char_P upper_char_I upper_char_N)
  then have "upper m = upper pre @ ''PIN'' @ upper post" by (simp add: upper_def)
  then show "str_in ''PIN'' (upper m)" unfolding str_in_iff by blast
qed

section \<open>Sessions\<close>

text \<open>
  Claim C1, at a wrong PIN. The card has slots 0 and 2 and its PIN is 1234. For
  \<^verbatim>\<open>POST /api/certificate\<close> with slot 2 and PIN 0000 the handler loads the driver, lists the
  slots, opens a session and logs in; the login raises \<^verbatim>\<open>CKR_PIN_INCORRECT\<close>, the handler
  answers 401, and \<^verbatim>\<open>closeSession\<close> is never called: the session it opened stays open.
\<close>

theorem certificate_session_leak:
  "api_get_certificate demo_libs demo_config demo_card
       (Inr (PDict [(''slot'', PInt 2), (''pin'', PStr ''0000'')]))
   = (Response (PDict [(''error'', PStr ''Incorrect PIN. Please check your PIN and try again.'')]) 401,
      \<lparr>trace = [Load ''/opt/env.so'', GetSlotList, OpenSession 2, Login ''0000''],
       session_var = False\<rparr>)"
  by (simp add: demo_defs io_defs py_defs certificate_defs)

text \<open>The same run read off its log: a session was opened and none was closed.\<close>

theorem certificate_session_leak_witness:
  "OpenSession 2 \<in> set (trace (snd (api_get_certificate demo_libs demo_config demo_card
       (Inr (PDict [(''slot'', PInt 2), (''pin'', PStr ''0000'')])))))
   \<and> CloseSession \<notin> set (trace (snd (api_get_certificate demo_libs demo_config demo_card
       (Inr (PDict [(''slot'', PInt 2), (''pin'', PStr ''0000'')])))))"
  using certificate_session_leak by simp

section \<open>Errors of the PKCS\#11 layer\<close>

text \<open>
  Claim C4. When the \<^verbatim>\<open>try\<close> block of \<^verbatim>\<open>POST /api/certificate\<close> raises a PyKCS11 error, the
  handler looks for substrings of the error text, the first match deciding: PIN incorrect
  and PIN locked give 401, token not present, slot id invalid and user not logged in give
  500, each with its own message, and any other text gives 500 with the message
  \<^verbatim>\<open>Smart card error:\<close> and the text. When the \<^verbatim>\<open>try\<close> block of \<^verbatim>\<open>POST /api/sign\<close> raises a
  python-pkcs11 error, a text that contains PIN in any case gives 401 and every other text
  gives 500.
\<close>

theorem pkcs11_error_mapping:
  "(certificate_body L cfg C data slot_id pin s = (Inl e, s') \<and> exn_class e = PyKCS11Error \<longrightarrow>
      (str_in ''CKR_PIN_INCORRECT'' (exn_str e) \<longrightarrow>
         fst (certificate_try L cfg C data slot_id pin s)
           = Response (error_json ''Incorrect PIN. Please check your PIN and try again.'') 401)
    \<and> (\<not> str_in ''CKR_PIN_INCORRECT'' (exn_str e) \<and> str_in ''CKR_PIN_LOCKED'' (exn_str e) \<longrightarrow>
         fst (certificate_try L cfg C data slot_id pin s)
           = Response (error_json ''PIN is locked. Too many incorrect attempts.'') 401)
    \<and> (\<not> str_in ''CKR_PIN_INCORRECT'' (exn_str e) \<and> \<not> str_in ''CKR_PIN_LOCKED'' (exn_str e) \<longrightarrow>
         (str_in ''CKR_TOKEN_NOT_PRESENT'' (exn_str e) \<longrightarrow>
            fst (certificate_try L cfg C data slot_id pin s)
              = Response (error_json ''Smart card not detected. Please insert your CEI card.'') 500)
       \<and> (\<not> str_in ''CKR_TOKEN_NOT_PRESENT'' (exn_str e)
            \<and> str_in ''CKR_SLOT_ID_INVALID'' (exn_str e) \<longrightarrow>
            fst (certificate_try L cfg C data slot_id pin s)
              = Response (error_json (''Invalid slot '' @ show_int slot_id @ ''. Please click ''
                   @ [CHR 0x22] @ ''Detect Smart Card'' @ [CHR 0x22]
                   @ '' and select the correct slot.'')) 500)
       \<and> (\<not> str_in ''CKR_TOKEN_NOT_PRESENT'' (exn_str e)
            \<and> \<not> str_in ''CKR_SLOT_ID_INVALID'' (exn_str e)
            \<and> str_in ''CKR_USER_NOT_LOGGED_IN'' (exn_str e) \<longrightarrow>
            fst (certificate_try L cfg C data slot_id pin s)
              = Response (error_json ''Session expired. Please try again.'') 500)
       \<and> (\<not> str_in ''CKR_TOKEN_NOT_PRESENT'' (exn_str e)
            \<and> \<not> str_in ''CKR_SLOT_ID_INVALID'' (exn_str e)
            \<and> \<not> str_in ''CKR_USER_NOT_LOGGED_IN'' (exn_str e) \<longrightarrow>
            fst (certificate_try L cfg C data slot_id pin s)
              = Response (error_json (''Smart card error: '' @ exn_str e)) 500)))
   \<and> (sign_body L cfg T P D form pdf_file slot_id2 pin2 g s2 = (Inl e2, s2')
        \<and> exn_class e2 = PKCS11Error \<longrightarrow>
      (contains_pin_ci (exn_str e2) \<longrightarrow>
         fst (sign_try L cfg T P D form pdf_file slot_id2 pin2 g s2)
           = Response (error_json ''Incorrect PIN or PIN locked'') 401)
    \<and> (\<not> contains_pin_ci (exn_str e2) \<longrightarrow>
         fst (sign_try L cfg T P D form pdf_file slot_id2 pin2 g s2)
           = Response (error_json (''Smart card error ('' @ exn_type e2 @ ''): '' @ exn_str e2)) 500))"
  by (simp add: certificate_try_def certificate_pkcs11_error_def sign_try_def
      sign_pkcs11_error_def pin_in_upper)

lemma contains_pin_ci_example: "contains_pin_ci ''User pin is wrong''"
proof -
  have "''User pin is wrong'' = ''User '' @ [CHR ''p'', CHR ''i'', CHR ''n''] @ '' is wrong''" by simp
  then show ?thesis unfolding contains_pin_ci_def by blast
qed

theorem pkcs11_error_mapping_witness:
  "fst (certificate_try demo_libs demo_config demo_card wrong_pin_request 2 ''0000'' st0)
     = Response (error_json ''Incorrect PIN. Please check your PIN and try again.'') 401
   \<and> fst (sign_try demo_libs demo_config
            (demo_token\<lparr>t_open := \<lambda>i p. Some (demo_exn PKCS11Error ''PKCS11Error'' ''User pin is wrong'')\<rparr>)
            demo_pdf demo_disk [] demo_upload 2 ''0000'' demo_geometry st0)
     = Response (error_json ''Incorrect PIN or PIN locked'') 401
   \<and> fst (sign_try demo_libs demo_config demo_token
            demo_pdf demo_disk [] demo_upload 2 ''0000'' demo_geometry st0)
     = Response (error_json ''Smart card error (PinIncorrect): '') 500"
proof -
  let ?e = "demo_exn PyKCS11Error ''PyKCS11Error'' ''CKR_PIN_INCORRECT (0x000000A0)''"
  let ?s = "\<lparr>trace = [Load ''/opt/env.so'', GetSlotList, OpenSession 2, Login ''0000''], session_var = False\<rparr>"
  have b1: "certificate_body demo_libs demo_config demo_card wrong_pin_request 2 ''0000'' st0 = (Inl ?e, ?s)"
    by (simp add: wrong_pin_request_def demo_defs io_defs py_defs certificate_defs)
  have c1: "exn_class ?e = PyKCS11Error" "str_in ''CKR_PIN_INCORRECT'' (exn_str ?e)"
    by (simp_all add: demo_exn_def)
  let ?T = "demo_token\<lparr>t_open := \<lambda>i p. Some (demo_exn PKCS11Error ''PKCS11Error'' ''User pin is wrong'')\<rparr>"
  let ?e2 = "demo_exn PKCS11Error ''PKCS11Error'' ''User pin is wrong''"
  let ?s2 = "\<lparr>trace = [Pkcs11Lib ''/opt/env.so'', GetSlots, GetToken 2, TokenOpen 2 ''0000''], session_var = False\<rparr>"
  have b2: "sign_body demo_libs demo_config ?T demo_pdf demo_disk [] demo_upload 2 ''0000'' demo_geometry st0
      = (Inl ?e2, ?s2)"
    by (simp add: demo_defs io_defs py_defs sign_defs Let_def)
  have c2: "exn_class ?e2 = PKCS11Error" "contains_pin_ci (exn_str ?e2)"
    by (simp_all add: demo_exn_def contains_pin_ci_example)
  let ?e3 = "demo_exn PKCS11Error ''PinIncorrect'' []"
  have b3: "sign_body demo_libs demo_config demo_token demo_pdf demo_disk [] demo_upload 2 ''0000'' demo_geometry st0
      = (Inl ?e3, ?s2)"
    by (simp add: demo_defs io_defs py_defs sign_defs Let_def)
  have c3: "exn_class ?e3 = PKCS11Error" "\<not> contains_pin_ci (exn_str ?e3)" "exn_type ?e3 = ''PinIncorrect''"
      "exn_str ?e3 = []"
    by (simp_all add: demo_exn_def contains_pin_ci_def)
  show ?thesis
    using pkcs11_error_mapping [of demo_libs demo_config demo_card wrong_pin_request 2 "''0000''" st0 ?e ?s
        ?T demo_pdf demo_disk "[]" demo_upload 2 "''0000''" demo_geometry st0 ?e2 ?s2]
      pkcs11_error_mapping [of demo_libs demo_config demo_card wrong_pin_request 2 "''0000''" st0 ?e ?s
        demo_token demo_pdf demo_disk "[]" demo_upload 2 "''0000''" demo_geometry st0 ?e3 ?s2]
      b1 c1 b2 c2 b3 c3
    by simp
qed

section \<open>What a try statement lets out\<close>



lemma io_bind_InrE:
  assumes "io_bind m f s = (Inr r, s')"
  obtains x s1 where "m s = (Inr x, s1)" "f x s1 = (Inr r, s')"
  using assms by (auto simp: io_bind_def split: prod.splits sum.splits)

lemma certificate_body_response:
  assumes "certificate_body L cfg C data slot_id pin s = (Inr r, s')"
  shows "\<exists>b st. r = Response b st"
  using assms unfolding certificate_body_def
  by (auto elim!: io_bind_InrE simp: ret_def split: if_splits)

lemma certificate_try_response: "\<exists>b st. fst (certificate_try L cfg C data slot_id pin s) = Response b st"
proof (cases "certificate_body L cfg C data slot_id pin s")
  case (Pair r s')
  show ?thesis
  proof (cases r)
    case (Inl e)
    then show ?thesis using Pair
      by (simp add: certificate_try_def certificate_pkcs11_error_def)
  next
    case (Inr resp)
    then show ?thesis using Pair certificate_body_response [of L cfg C data slot_id pin s resp s']
      by (auto simp: certificate_try_def)
  qed
qed

lemma sign_body_response:
  assumes "sign_body L cfg T P D form pdf_file slot_id pin g s = (Inr r, s')"
  shows "\<exists>b st. r = Response b st"
  using assms unfolding sign_body_def Let_def
  by (auto elim!: io_bind_InrE simp: ret_def split: if_splits)

lemma sign_try_response: "\<exists>b st. fst (sign_try L cfg T P D form pdf_file slot_id pin g s) = Response b st"
proof (cases "sign_body L cfg T P D form pdf_file slot_id pin g s")
  case (Pair r s')
  show ?thesis
  proof (cases r)
    case (Inl e)
    then show ?thesis using Pair
      by (simp add: sign_try_def sign_pkcs11_error_def sign_other_error_def Let_def)
  next
    case (Inr resp)
    then show ?thesis using Pair sign_body_response [of L cfg T P D form pdf_file slot_id pin g s resp s']
      by (auto simp: sign_try_def)
  qed
qed

section \<open>Other exceptions\<close>

text \<open>
  Claim C3, as the code has it. An exception that is not an error of the PKCS\#11 library
  and is raised inside the \<^verbatim>\<open>try\<close> block is caught, a stack trace is logged and the answer
  is a JSON error with status 500. In \<^verbatim>\<open>POST /api/certificate\<close> the message is
  \<^verbatim>\<open>Error:\<close> followed by the text of the exception, without the name of its type; in
  \<^verbatim>\<open>POST /api/sign\<close> it is the name of the type, a colon and the text, the name standing in
  for an empty text. Neither \<^verbatim>\<open>try\<close> statement lets an exception out.
\<close>

theorem other_exceptions_caught:
  "(certificate_body L cfg C data slot_id pin s = (Inl e, s') \<and> exn_class e \<noteq> PyKCS11Error \<longrightarrow>
      certificate_try L cfg C data slot_id pin s
        = (Response (error_json (''Error: '' @ exn_str e)) 500, s'\<lparr>trace := trace s' @ [PrintExc]\<rparr>))
   \<and> (sign_body L cfg T P D form pdf_file slot_id2 pin2 g s2 = (Inl e2, s2')
        \<and> exn_class e2 \<noteq> PKCS11Error \<longrightarrow>
      fst (sign_try L cfg T P D form pdf_file slot_id2 pin2 g s2)
        = Response (error_json (exn_type e2 @ '': ''
                      @ (if exn_str e2 = [] then exn_type e2 else exn_str e2))) 500
      \<and> PrintExc \<in> set (trace (snd (sign_try L cfg T P D form pdf_file slot_id2 pin2 g s2))))
   \<and> (\<exists>b st. fst (certificate_try L cfg C data slot_id pin s) = Response b st)
   \<and> (\<exists>b st. fst (sign_try L cfg T P D form pdf_file slot_id2 pin2 g s2) = Response b st)"
proof -
  have "certificate_body L cfg C data slot_id pin s = (Inl e, s') \<and> exn_class e \<noteq> PyKCS11Error \<longrightarrow>
      certificate_try L cfg C data slot_id pin s
        = (Response (error_json (''Error: '' @ exn_str e)) 500, s'\<lparr>trace := trace s' @ [PrintExc]\<rparr>)"
    by (simp add: certificate_try_def)
  moreover have "sign_body L cfg T P D form pdf_file slot_id2 pin2 g s2 = (Inl e2, s2')
        \<and> exn_class e2 \<noteq> PKCS11Error \<longrightarrow>
      fst (sign_try L cfg T P D form pdf_file slot_id2 pin2 g s2)
        = Response (error_json (exn_type e2 @ '': ''
                      @ (if exn_str e2 = [] then exn_type e2 else exn_str e2))) 500
      \<and> PrintExc \<in> set (trace (snd (sign_try L cfg T P D form pdf_file slot_id2 pin2 g s2)))"
    by (simp add: sign_try_def sign_other_error_def sign_finally_def Let_def)
  ultimately show ?thesis
    using certificate_try_response [of L cfg C data slot_id pin s]
      sign_try_response [of L cfg T P D form pdf_file slot_id2 pin2 g s2]
    by blast
qed

theorem other_exceptions_caught_witness:
  "certificate_try demo_libs demo_config broken_card good_request 2 ''1234'' st0
     = (Response (error_json ''Error: boom'') 500,
        \<lparr>trace = [Load ''/opt/env.so'', GetSlotList, OpenSession 2, Login ''1234'', FindObjects, PrintExc],
         session_var = False\<rparr>)
   \<and> fst (sign_try demo_libs demo_config demo_token broken_pdf demo_disk [] demo_upload 2 ''1234''
            demo_geometry st0)
     = Response (error_json ''PdfReadError: PdfReadError'') 500"
proof -
  let ?e = "demo_exn OtherException ''RuntimeError'' ''boom''"
  let ?s = "\<lparr>trace = [Load ''/opt/env.so'', GetSlotList, OpenSession 2, Login ''1234'', FindObjects],
             session_var = False\<rparr>"
  have b1: "certificate_body demo_libs demo_config broken_card good_request 2 ''1234'' st0 = (Inl ?e, ?s)"
    by (simp add: good_request_def broken_card_def demo_defs io_defs py_defs certificate_defs)
  have c1: "exn_class ?e \<noteq> PyKCS11Error" "exn_str ?e = ''boom''" by (simp_all add: demo_exn_def)
  let ?e2 = "demo_exn OtherException ''PdfReadError'' []"
  let ?s2 = "\<lparr>trace = [Pkcs11Lib ''/opt/env.so'', GetSlots, GetToken 2, TokenOpen 2 ''1234'',
                       ReadPdf ''%PDF-1.7''], session_var = True\<rparr>"
  have b2: "sign_body demo_libs demo_config demo_token broken_pdf demo_disk [] demo_upload 2 ''1234''
      demo_geometry st0 = (Inl ?e2, ?s2)"
    by (simp add: broken_pdf_def demo_upload_def demo_defs io_defs py_defs sign_defs Let_def)
  have c2: "exn_class ?e2 \<noteq> PKCS11Error" "exn_str ?e2 = []" "exn_type ?e2 = ''PdfReadError''"
    by (simp_all add: demo_exn_def)
  show ?thesis
    using other_exceptions_caught [of demo_libs demo_config broken_card good_request 2 "''1234''" st0 ?e ?s
        demo_token broken_pdf demo_disk "[]" demo_upload 2 "''1234''" demo_geometry st0 ?e2 ?s2]
      b1 c1 b2 c2
    by simp
qed

text \<open>
  Claim C3 as stated fails: the slot is converted with \<^verbatim>\<open>int\<close> before the \<^verbatim>\<open>try\<close> block of
  either handler, so a slot that is no number raises a ValueError that leaves the handler;
  and the message of \<^verbatim>\<open>POST /api/certificate\<close> for a RuntimeError does not hold the name of
  the type.
\<close>

theorem exception_escapes_counterexample:
  "fst (api_get_certificate demo_libs demo_config demo_card
          (Inr (PDict [(''slot'', PStr ''abc''), (''pin'', PStr ''1234'')])))
     = Raised \<lparr>exn_class = OtherException, exn_type = ''ValueError'', exn_str = ''bad value''\<rparr>
   \<and> fst (api_sign_pdf demo_libs demo_config demo_token demo_pdf demo_disk
          \<lparr>rq_pdf = Some demo_upload, rq_form = [(''slot'', ''abc''), (''pin'', ''1234'')]\<rparr>)
     = Raised \<lparr>exn_class = OtherException, exn_type = ''ValueError'', exn_str = ''bad value''\<rparr>
   \<and> fst (api_get_certificate demo_libs demo_config broken_card (Inr good_request))
     = Response (PDict [(''error'', PStr ''Error: boom'')]) 500
   \<and> \<not> str_in ''RuntimeError'' ''Error: boom''"
  by (simp add: good_request_def broken_card_def demo_upload_def demo_defs io_defs py_defs
      certificate_defs sign_defs)

section \<open>The list of certificates\<close>





section \<open>The signature field\<close>

lemma io_bindE:
  assumes "io_bind m f s = (r, s')"
  obtains e where "m s = (Inl e, s')" "r = Inl e"
  | x s1 where "m s = (Inr x, s1)" "f x s1 = (r, s')"
  using assms by (auto simp: io_bind_def split: prod.splits sum.splits)

lemma call_trace: "call ev a s = (r, s') \<Longrightarrow> a = r \<and> s' = s\<lparr>trace := trace s @ [ev]\<rparr>"
  by (auto simp: call_def)

lemma lift_state: "lift a s = (r, s') \<Longrightarrow> a = r \<and> s' = s"
  by (auto simp: lift_def)

lemma ret_state: "ret x s = (r, s') \<Longrightarrow> r = Inr x \<and> s' = s"
  by (auto simp: ret_def)

lemma set_session_state: "set_session b s = (r, s') \<Longrightarrow> r = Inr () \<and> s' = s\<lparr>session_var := b\<rparr>"
  by (auto simp: set_session_def)



lemma add_field_trace:
  assumes "add_field L P g s = (r, s')"
  shows "session_var s' = session_var s \<and>
     (trace s' = trace s @ [PagesKids]
      \<or> (\<exists>spec. field_from L P g spec \<and> trace s' = trace s @ [PagesKids, AppendSignatureField spec]))"
  using assms unfolding add_field_def field_from_def
  by (auto elim!: io_bindE dest!: call_trace lift_state split: option.splits)








section \<open>Signature boxes\<close>







section \<open>Paths and fresh names\<close>

lemma rfind_absent: "c \<notin> set s \<Longrightarrow> rfind c s = - 1"
  by (simp add: rfind_def)

lemma takeWhile_shorter:
  assumes "x \<in> set xs" "\<not> P x"
  shows "length (takeWhile P xs) < length xs"
proof (rule ccontr)
  assume "\<not> length (takeWhile P xs) < length xs"
  then have "length (takeWhile P xs) = length xs"
    using length_takeWhile_le [of P xs] by simp
  then have "takeWhile P xs = xs"
    using takeWhile_eq_take [of P xs] by simp
  then have "\<forall>y\<in>set xs. P y" by (simp add: takeWhile_eq_all_conv)
  then show False using assms by blast
qed

lemma rfind_range: "c \<in> set s \<Longrightarrow> 0 \<le> rfind c s \<and> rfind c s < int (length s)"
proof -
  assume a: "c \<in> set s"
  then have "c \<in> set (rev s)" by simp
  then have "length (takeWhile (\<lambda>x. x \<noteq> c) (rev s)) < length (rev s)"
    by (rule takeWhile_shorter) simp
  then show ?thesis using a by (simp add: rfind_def)
qed

lemma rfind_append_in:
  assumes "c \<in> set t"
  shows "rfind c (s @ t) = int (length s) + rfind c t"
proof -
  have "c \<in> set (rev t)" using assms by simp
  then have "takeWhile (\<lambda>x. x \<noteq> c) (rev t @ rev s) = takeWhile (\<lambda>x. x \<noteq> c) (rev t)"
    by (rule takeWhile_append1) simp
  then show ?thesis using assms by (simp add: rfind_def)
qed

lemma rfind_append_out:
  assumes "c \<notin> set t"
  shows "rfind c (s @ t) = rfind c s"
proof -
  have "takeWhile (\<lambda>x. x \<noteq> c) (rev t @ rev s) = rev t @ takeWhile (\<lambda>x. x \<noteq> c) (rev s)"
    by (rule takeWhile_append2) (use assms in auto)
  then show ?thesis using assms by (auto simp: rfind_def)
qed

lemma rfind_last: "s \<noteq> [] \<Longrightarrow> last s = c \<Longrightarrow> rfind c s = int (length s) - 1"
proof -
  assume a: "s \<noteq> []" "last s = c"
  then obtain s' where s: "s = s' @ [c]" by (metis append_butlast_last_id)
  show ?thesis unfolding s by (simp add: rfind_def)
qed

lemma splitext_in_dir:
  assumes name: "CHR ''/'' \<notin> set name"
    and pre: "pre = [] \<or> last pre = CHR ''/''"
  shows "splitext (pre @ name) = (pre @ fst (splitext name), snd (splitext name))"
proof -
  have sep: "rfind CHR ''/'' (pre @ name) = int (length pre) - 1"
  proof (cases "pre = []")
    case True
    then show ?thesis using name by (simp add: rfind_absent)
  next
    case False
    then show ?thesis using name pre by (simp add: rfind_append_out rfind_last)
  qed
  have sep0: "rfind CHR ''/'' name = - 1" using name by (simp add: rfind_absent)
  show ?thesis
  proof (cases "CHR ''.'' \<in> set name")
    case True
    then have dot: "rfind CHR ''.'' (pre @ name) = int (length pre) + rfind CHR ''.'' name"
      by (rule rfind_append_in)
    have r: "0 \<le> rfind CHR ''.'' name" using rfind_range [OF True] by simp
    then have n: "nat (int (length pre) + rfind CHR ''.'' name) = length pre + nat (rfind CHR ''.'' name)"
      by (simp add: nat_add_distrib)
    show ?thesis
      using r by (simp add: splitext_def sep sep0 dot n Let_def)
  next
    case False
    then have dot: "rfind CHR ''.'' (pre @ name) = rfind CHR ''.'' pre" by (rule rfind_append_out)
    have "rfind CHR ''.'' pre \<le> int (length pre) - 1"
    proof (cases "CHR ''.'' \<in> set pre")
      case True
      then show ?thesis using rfind_range [OF True] by simp
    next
      case False
      then show ?thesis by (simp add: rfind_absent)
    qed
    then show ?thesis
      using False by (simp add: splitext_def sep sep0 dot rfind_absent Let_def)
  qed
qed

lemma rfind_after: "rfind c s < int i \<Longrightarrow> c \<notin> set (drop i s)"
proof (cases "c \<in> set s")
  case False
  then show ?thesis by (meson in_set_dropD)
next
  case True
  assume a: "rfind c s < int i"
  define k where "k = length (takeWhile (\<lambda>x. x \<noteq> c) (rev s))"
  have kle: "k \<le> length s" unfolding k_def by (metis length_rev length_takeWhile_le)
  have i: "length s - k \<le> i" using a True kle by (simp add: rfind_def k_def)
  have "drop (length s - k) s = rev (take k (rev s))" by (simp add: rev_take)
  also have "take k (rev s) = takeWhile (\<lambda>x. x \<noteq> c) (rev s)"
    unfolding k_def by (rule takeWhile_eq_take [symmetric])
  finally have "c \<notin> set (drop (length s - k) s)"
    by (auto dest: set_takeWhileD)
  moreover have "set (drop i s) \<subseteq> set (drop (length s - k) s)"
    using i by (rule set_drop_subset_set_drop)
  ultimately show ?thesis by auto
qed

lemma splitext_parts:
  assumes "splitext p = (b, e)"
  shows "b @ e = p \<and> CHR ''/'' \<notin> set e"
proof (cases "rfind CHR ''/'' p < rfind CHR ''.'' p
     \<and> list_ex (\<lambda>c. c \<noteq> CHR ''.'')
          (take (nat (rfind CHR ''.'' p - (rfind CHR ''/'' p + 1))) (drop (nat (rfind CHR ''/'' p + 1)) p))")
  case True
  then have be: "b = take (nat (rfind CHR ''.'' p)) p" "e = drop (nat (rfind CHR ''.'' p)) p"
    using assms by (simp_all add: splitext_def Let_def)
  have "rfind CHR ''/'' p < int (nat (rfind CHR ''.'' p))" using True by simp
  then show ?thesis using be rfind_after by simp
next
  case False
  then have "b = p" "e = []" using assms by (auto simp: splitext_def Let_def)
  then show ?thesis by simp
qed

lemma dedupe_spec:
  "dedupe fs base ext p c \<notin> set fs
   \<and> (dedupe fs base ext p c = p
      \<or> (p \<in> set fs \<and> (\<exists>k\<ge>c. dedupe fs base ext p c = candidate base ext k
                           \<and> (\<forall>j. c \<le> j \<and> j < k \<longrightarrow> candidate base ext j \<in> set fs))))"
proof (induction fs base ext p c rule: dedupe.induct)
  case (1 fs base ext p c)
  show ?case
  proof (cases "p \<in> set fs")
    case False
    then have "dedupe fs base ext p c = p" by (subst dedupe.simps) simp
    then show ?thesis using False by simp
  next
    case True
    let ?r = "dedupe fs base ext (candidate base ext c) (c + 1)"
    have eq: "dedupe fs base ext p c = ?r" using True by (subst dedupe.simps) simp
    have ih: "?r \<notin> set fs
       \<and> (?r = candidate base ext c
          \<or> (candidate base ext c \<in> set fs \<and> (\<exists>k\<ge>c + 1. ?r = candidate base ext k
                \<and> (\<forall>j. c + 1 \<le> j \<and> j < k \<longrightarrow> candidate base ext j \<in> set fs))))"
      using 1 [OF True] by simp
    have "\<exists>k\<ge>c. ?r = candidate base ext k
                           \<and> (\<forall>j. c \<le> j \<and> j < k \<longrightarrow> candidate base ext j \<in> set fs)"
    proof (cases "?r = candidate base ext c")
      case True
      then show ?thesis by (intro exI [of _ c]) auto
    next
      case False
      then obtain k where k: "c + 1 \<le> k" "?r = candidate base ext k"
        "\<forall>j. c + 1 \<le> j \<and> j < k \<longrightarrow> candidate base ext j \<in> set fs"
        and cin: "candidate base ext c \<in> set fs"
        using ih by blast
      have "\<forall>j. c \<le> j \<and> j < k \<longrightarrow> candidate base ext j \<in> set fs"
      proof (intro allI impI)
        fix j assume "c \<le> j \<and> j < k"
        then show "candidate base ext j \<in> set fs"
          using k(3) cin by (cases "j = c") auto
      qed
      then show ?thesis using k(1,2) by (intro exI [of _ k]) simp
    qed
    then show ?thesis using ih True unfolding eq by blast
  qed
qed

lemma show_nat_no_slash: "CHR ''/'' \<notin> set (show_nat n)"
proof (induction n rule: show_nat.induct)
  case (1 n)
  have d: "\<And>d. d < 10 \<Longrightarrow> digit_char d \<noteq> CHR ''/''"
  proof -
    fix d :: nat assume "d < 10"
    then have "d \<in> {0, 1, 2, 3, 4, 5, 6, 7, 8, 9}" by auto
    then show "digit_char d \<noteq> CHR ''/''" by (auto simp: digit_char_def)
  qed
  show ?case
  proof (cases "n < 10")
    case True
    then show ?thesis using d [of n] by simp
  next
    case False
    then have "show_nat n = show_nat (n div 10) @ [digit_char (n mod 10)]"
      by (subst show_nat.simps) simp
    then show ?thesis using 1 False d [of "n mod 10"] by simp
  qed
qed

lemma path_join_plain: "CHR ''/'' \<notin> set name \<Longrightarrow> path_join dir name = dir_prefix dir @ name"
  by (cases name) (auto simp: path_join_def dir_prefix_def)

lemma dir_prefix_end: "dir_prefix dir = [] \<or> last (dir_prefix dir) = CHR ''/''"
  by (simp add: dir_prefix_def)

lemma fresh_path_spec:
  assumes "CHR ''/'' \<notin> set name"
  shows "fresh_path cfg name \<notin> set (existing_paths cfg)
     \<and> directly_in (downloads_folder cfg) (fresh_path cfg name)
     \<and> (fresh_path cfg name = dir_prefix (downloads_folder cfg) @ name
        \<or> (\<exists>k\<ge>1. fresh_path cfg name
               = dir_prefix (downloads_folder cfg) @ fst (splitext name) @ ''_'' @ show_nat k
                 @ snd (splitext name)
             \<and> dir_prefix (downloads_folder cfg) @ name \<in> set (existing_paths cfg)
             \<and> (\<forall>j. 1 \<le> j \<and> j < k \<longrightarrow>
                   dir_prefix (downloads_folder cfg) @ fst (splitext name) @ ''_'' @ show_nat j
                     @ snd (splitext name) \<in> set (existing_paths cfg))))"
proof -
  let ?pre = "dir_prefix (downloads_folder cfg)"
  let ?b = "fst (splitext name)" and ?e = "snd (splitext name)"
  have pj: "path_join (downloads_folder cfg) name = ?pre @ name"
    using assms by (rule path_join_plain)
  have sp: "splitext (?pre @ name) = (?pre @ ?b, ?e)"
    using assms dir_prefix_end by (rule splitext_in_dir)
  have fp: "fresh_path cfg name = dedupe (existing_paths cfg) (?pre @ ?b) ?e (?pre @ name) 1"
    by (simp add: fresh_path_def unique_path_def pj sp)
  have parts: "?b @ ?e = name" "CHR ''/'' \<notin> set ?e"
    using splitext_parts [of name ?b ?e] by simp_all
  then have nb: "CHR ''/'' \<notin> set ?b" using assms by (metis Un_iff set_append)
  have cand: "\<And>k. candidate (?pre @ ?b) ?e k = ?pre @ ?b @ ''_'' @ show_nat k @ ?e"
    by (simp add: candidate_def)
  have candname: "\<And>k. CHR ''/'' \<notin> set (?b @ ''_'' @ show_nat k @ ?e)"
    using nb parts(2) show_nat_no_slash by simp
  note d = dedupe_spec [of "existing_paths cfg" "?pre @ ?b" ?e "?pre @ name" 1]
  have fresh: "fresh_path cfg name \<notin> set (existing_paths cfg)" using d fp by simp
  have shape: "fresh_path cfg name = ?pre @ name
        \<or> (\<exists>k\<ge>1. fresh_path cfg name = ?pre @ ?b @ ''_'' @ show_nat k @ ?e
             \<and> ?pre @ name \<in> set (existing_paths cfg)
             \<and> (\<forall>j. 1 \<le> j \<and> j < k \<longrightarrow>
                   ?pre @ ?b @ ''_'' @ show_nat j @ ?e \<in> set (existing_paths cfg)))"
    using d unfolding fp cand by blast
  have "directly_in (downloads_folder cfg) (fresh_path cfg name)"
    using shape assms candname unfolding directly_in_def by blast
  then show ?thesis using fresh shape by blast
qed

section \<open>Saving files\<close>

lemma zip_loop_ok:
  assumes "\<forall>f\<in>set files. file_ok L f \<and> d_zip_writestr D (PStr (file_name f)) = None"
  shows "zip_loop L D files s =
           (Inr (), s\<lparr>trace := trace s @ map (\<lambda>f. ZipWritestr (PStr (file_name f)) (file_bytes L f)) files\<rparr>)"
  using assms
proof (induction files arbitrary: s)
  case Nil
  then show ?case by (simp add: ret_def)
next
  case (Cons f files)
  then obtain kvs n d b where f: "f = PDict kvs" "map_of kvs ''name'' = Some (PStr n)"
    "map_of kvs ''data'' = Some d" "b64decode L d = Inr b"
    by (auto simp: file_ok_def)
  have nm: "file_name f = n" "file_bytes L f = b" using f by (simp_all add: file_name_def file_bytes_def)
  have w: "d_zip_writestr D (PStr n) = None" using Cons.prems nm by simp
  have rest: "\<forall>f\<in>set files. file_ok L f \<and> d_zip_writestr D (PStr (file_name f)) = None"
    using Cons.prems by simp
  show ?case
    using f w Cons.IH [OF rest]
    by (simp add: io_defs subscript_def file_name_def file_bytes_def)
qed

lemma save_zip_run:
  assumes "\<forall>f\<in>set files. file_ok L f \<and> d_zip_writestr D (PStr (file_name f)) = None"
    and "d_zip_open D (fresh_path cfg ''signed_documents.zip'') = None"
    and "d_zip_close D = None"
    and "d_reveal D (fresh_path cfg ''signed_documents.zip'') = None"
  shows "save_zip L cfg D (PList files) s =
     (Inr [fresh_path cfg ''signed_documents.zip''],
      s\<lparr>trace := trace s @ ZipOpen (fresh_path cfg ''signed_documents.zip'')
           # map (\<lambda>f. ZipWritestr (PStr (file_name f)) (file_bytes L f)) files
           @ [ZipClose, Reveal (fresh_path cfg ''signed_documents.zip'')]\<rparr>)"
  unfolding save_zip_def Let_def fresh_path_def [symmetric]
  using assms(2-4) zip_loop_ok [OF assms(1)]
  by (simp add: io_defs with_zip_def py_iter_def)

lemma save_single_run:
  assumes "file_ok L f"
    and "d_write D (fresh_path cfg (file_name f)) = None"
    and "d_reveal D (fresh_path cfg (file_name f)) = None"
  shows "save_single L cfg D (PList [f]) s =
     (Inr [fresh_path cfg (file_name f)],
      s\<lparr>trace := trace s @ [WriteFile (fresh_path cfg (file_name f)) (file_bytes L f),
                             Reveal (fresh_path cfg (file_name f))]\<rparr>)"
proof -
  from assms(1) obtain kvs n d b where f: "f = PDict kvs" "map_of kvs ''name'' = Some (PStr n)"
    "map_of kvs ''data'' = Some d" "b64decode L d = Inr b"
    by (auto simp: file_ok_def)
  have nm: "file_name f = n" "file_bytes L f = b" using f by (simp_all add: file_name_def file_bytes_def)
  show ?thesis
    unfolding save_single_def Let_def
    using f assms(2,3) unfolding nm
    by (simp add: io_defs first_item_def subscript_def as_str_def fresh_path_def [symmetric])
qed

lemma api_save_files_enter:
  assumes "map_of kvs ''files'' = Some files_data"
  shows "api_save_files L cfg D (Inr (PDict kvs)) = save_try L cfg D files_data st0"
proof -
  have "kvs \<noteq> []" using assms by auto
  moreover have "''files'' \<in> fst ` set kvs" using assms by (metis map_of_eq_None_iff option.distinct(1))
  ultimately show ?thesis using assms
    by (simp add: api_save_files_def truthy_def contains_key_def subscript_def)
qed

text \<open>
  Claim C7, as the code has it. Every file of the request is a JSON object with a string
  name and data that decodes, and the disk accepts every call. One file is written as a file
  of its own; any other number of files is written as one zip archive named
  \<^verbatim>\<open>signed_documents.zip\<close>, whose entries carry the names of the request as they stand, in
  order, nothing being done about equal names. The path written for a name without a slash
  does not exist beforehand, lies directly in the Downloads folder, and is the name itself or
  the name with \<open>_k\<close> put before its extension, for some \<open>k\<close> from 1 on.
\<close>

theorem save_files_fresh_names:
  assumes "map_of kvs ''files'' = Some (PList files)"
    and "\<forall>f\<in>set files. file_ok L f"
    and "\<forall>p. d_write D p = None" and "\<forall>p. d_zip_open D p = None"
    and "\<forall>n. d_zip_writestr D n = None" and "d_zip_close D = None"
    and "\<forall>p. d_reveal D p = None"
  shows
    "(\<forall>f. files = [f] \<longrightarrow>
        api_save_files L cfg D (Inr (PDict kvs))
          = (Response (save_success [fresh_path cfg (file_name f)]) 200,
             \<lparr>trace = [WriteFile (fresh_path cfg (file_name f)) (file_bytes L f),
                       Reveal (fresh_path cfg (file_name f))],
              session_var = False\<rparr>))
     \<and> (length files \<noteq> 1 \<longrightarrow>
        api_save_files L cfg D (Inr (PDict kvs))
          = (Response (save_success [fresh_path cfg ''signed_documents.zip'']) 200,
             \<lparr>trace = ZipOpen (fresh_path cfg ''signed_documents.zip'')
                       # map (\<lambda>f. ZipWritestr (PStr (file_name f)) (file_bytes L f)) files
                       @ [ZipClose, Reveal (fresh_path cfg ''signed_documents.zip'')],
              session_var = False\<rparr>))
     \<and> (\<forall>name. CHR ''/'' \<notin> set name \<longrightarrow>
          fresh_path cfg name \<notin> set (existing_paths cfg)
          \<and> directly_in (downloads_folder cfg) (fresh_path cfg name)
          \<and> (fresh_path cfg name = dir_prefix (downloads_folder cfg) @ name
             \<or> (\<exists>k\<ge>1. fresh_path cfg name
                     = dir_prefix (downloads_folder cfg) @ fst (splitext name) @ ''_'' @ show_nat k
                       @ snd (splitext name))))"
proof (intro conjI allI impI)
  fix f assume one: "files = [f]"
  then have ok: "file_ok L f" using assms(2) by simp
  show "api_save_files L cfg D (Inr (PDict kvs))
          = (Response (save_success [fresh_path cfg (file_name f)]) 200,
             \<lparr>trace = [WriteFile (fresh_path cfg (file_name f)) (file_bytes L f),
                       Reveal (fresh_path cfg (file_name f))],
              session_var = False\<rparr>)"
    using save_single_run [OF ok, of D cfg st0] assms(3,7)
    by (simp add: api_save_files_enter [OF assms(1)] save_try_def save_body_def one io_defs py_len_def)
next
  assume many: "length files \<noteq> 1"
  show "api_save_files L cfg D (Inr (PDict kvs))
          = (Response (save_success [fresh_path cfg ''signed_documents.zip'']) 200,
             \<lparr>trace = ZipOpen (fresh_path cfg ''signed_documents.zip'')
                       # map (\<lambda>f. ZipWritestr (PStr (file_name f)) (file_bytes L f)) files
                       @ [ZipClose, Reveal (fresh_path cfg ''signed_documents.zip'')],
              session_var = False\<rparr>)"
    using save_zip_run [of files L D cfg st0] assms(2,4,5,6,7) many
    by (simp add: api_save_files_enter [OF assms(1)] save_try_def save_body_def io_defs py_len_def)
next
  fix name :: string assume "CHR ''/'' \<notin> set name"
  from fresh_path_spec [OF this, of cfg]
  show "fresh_path cfg name \<notin> set (existing_paths cfg)"
    and "directly_in (downloads_folder cfg) (fresh_path cfg name)"
    and "fresh_path cfg name = dir_prefix (downloads_folder cfg) @ name
             \<or> (\<exists>k\<ge>1. fresh_path cfg name
                     = dir_prefix (downloads_folder cfg) @ fst (splitext name) @ ''_'' @ show_nat k
                       @ snd (splitext name))"
    by blast+
qed

text \<open>
  Claim C10. For a request whose \<^verbatim>\<open>files\<close> is the empty list there is no validation error:
  the handler takes the branch for several files, creates an archive without entries under
  the name \<^verbatim>\<open>signed_documents.zip\<close> in the Downloads folder, or under
  \<^verbatim>\<open>signed_documents_k.zip\<close> for the first \<open>k\<close> that is free when that name exists, and
  answers with success and status 200 (the disk accepting the calls).
\<close>

theorem empty_files_archive:
  assumes "map_of kvs ''files'' = Some (PList [])"
    and "d_zip_open D (fresh_path cfg ''signed_documents.zip'') = None"
    and "d_zip_close D = None"
    and "d_reveal D (fresh_path cfg ''signed_documents.zip'') = None"
  shows
    "api_save_files L cfg D (Inr (PDict kvs))
       = (Response (PDict [(''success'', PBool True),
                           (''saved_files'', PList [PStr (fresh_path cfg ''signed_documents.zip'')])]) 200,
          \<lparr>trace = [ZipOpen (fresh_path cfg ''signed_documents.zip''), ZipClose,
                    Reveal (fresh_path cfg ''signed_documents.zip'')],
           session_var = False\<rparr>)
     \<and> fresh_path cfg ''signed_documents.zip'' \<notin> set (existing_paths cfg)
     \<and> (fresh_path cfg ''signed_documents.zip''
           = dir_prefix (downloads_folder cfg) @ ''signed_documents.zip''
        \<or> (\<exists>k\<ge>1. fresh_path cfg ''signed_documents.zip''
               = dir_prefix (downloads_folder cfg) @ ''signed_documents_'' @ show_nat k @ ''.zip''))"
proof -
  have sp: "splitext ''signed_documents.zip'' = (''signed_documents'', ''.zip'')"
    by (simp add: splitext_def rfind_def Let_def)
  have run: "api_save_files L cfg D (Inr (PDict kvs))
       = (Response (PDict [(''success'', PBool True),
                           (''saved_files'', PList [PStr (fresh_path cfg ''signed_documents.zip'')])]) 200,
          \<lparr>trace = [ZipOpen (fresh_path cfg ''signed_documents.zip''), ZipClose,
                    Reveal (fresh_path cfg ''signed_documents.zip'')],
           session_var = False\<rparr>)"
    using save_zip_run [of "[]" L D cfg st0] assms(2-4)
    by (simp add: api_save_files_enter [OF assms(1)] save_try_def save_body_def io_defs py_len_def
        save_success_def)
  have "CHR ''/'' \<notin> set ''signed_documents.zip''" by simp
  from fresh_path_spec [OF this, of cfg] run show ?thesis
    unfolding sp by (simp only: fst_conv snd_conv append.simps) blast
qed

lemmas path_defs = fresh_path_def unique_path_def splitext_def rfind_def path_join_def
  candidate_def digit_char_def dedupe.simps

lemmas save_defs = api_save_files_def save_try_def save_body_def save_single_def save_zip_def
  with_zip_def save_success_def

lemma fresh_a: "fresh_path demo_config ''a.pdf'' = ''/home/u/Downloads/a_2.pdf''"
  by (simp add: path_defs demo_config_def Let_def)

lemma fresh_zip: "fresh_path demo_config ''signed_documents.zip''
    = ''/home/u/Downloads/signed_documents_1.zip''"
  by (simp add: path_defs demo_config_def Let_def)

lemma demo_files_ok: "file_ok demo_libs file_a" "file_ok demo_libs file_a_again"
  "file_name file_a = ''a.pdf''" "file_name file_a_again = ''a.pdf''"
  "file_bytes demo_libs file_a = ''first''" "file_bytes demo_libs file_a_again = ''second''"
  by (simp_all add: file_ok_def file_name_def file_bytes_def file_a_def file_a_again_def demo_libs_def)

theorem save_files_fresh_names_witness:
  "api_save_files demo_libs demo_config demo_disk (Inr (PDict [(''files'', PList [file_a])]))
     = (Response (save_success [''/home/u/Downloads/a_2.pdf'']) 200,
        \<lparr>trace = [WriteFile ''/home/u/Downloads/a_2.pdf'' ''first'',
                  Reveal ''/home/u/Downloads/a_2.pdf''],
         session_var = False\<rparr>)
   \<and> api_save_files demo_libs demo_config demo_disk
         (Inr (PDict [(''files'', PList [file_a, file_a_again])]))
     = (Response (save_success [''/home/u/Downloads/signed_documents_1.zip'']) 200,
        \<lparr>trace = [ZipOpen ''/home/u/Downloads/signed_documents_1.zip'',
                  ZipWritestr (PStr ''a.pdf'') ''first'', ZipWritestr (PStr ''a.pdf'') ''second'',
                  ZipClose, Reveal ''/home/u/Downloads/signed_documents_1.zip''],
         session_var = False\<rparr>)
   \<and> ''/home/u/Downloads/a_2.pdf'' \<notin> set (existing_paths demo_config)
   \<and> directly_in (downloads_folder demo_config) ''/home/u/Downloads/a_2.pdf''"
proof -
  have disk: "\<forall>p. d_write demo_disk p = None" "\<forall>p. d_zip_open demo_disk p = None"
    "\<forall>n. d_zip_writestr demo_disk n = None" "d_zip_close demo_disk = None"
    "\<forall>p. d_reveal demo_disk p = None"
    by (simp_all add: demo_disk_def)
  have f1: "map_of [(''files'', PList [file_a])] ''files'' = Some (PList [file_a])" by simp
  have ok1: "\<forall>f\<in>set [file_a]. file_ok demo_libs f" by (simp add: demo_files_ok)
  note t1 = save_files_fresh_names [OF f1 ok1 disk, of demo_config]
  have A: "api_save_files demo_libs demo_config demo_disk (Inr (PDict [(''files'', PList [file_a])]))
     = (Response (save_success [''/home/u/Downloads/a_2.pdf'']) 200,
        \<lparr>trace = [WriteFile ''/home/u/Downloads/a_2.pdf'' ''first'',
                  Reveal ''/home/u/Downloads/a_2.pdf''],
         session_var = False\<rparr>)"
    using t1 by (simp add: fresh_a demo_files_ok)
  have "CHR ''/'' \<notin> set ''a.pdf''" by simp
  then have C: "''/home/u/Downloads/a_2.pdf'' \<notin> set (existing_paths demo_config)"
    "directly_in (downloads_folder demo_config) ''/home/u/Downloads/a_2.pdf''"
    using t1 unfolding fresh_a [symmetric] by blast+
  have f2: "map_of [(''files'', PList [file_a, file_a_again])] ''files''
      = Some (PList [file_a, file_a_again])" by simp
  have ok2: "\<forall>f\<in>set [file_a, file_a_again]. file_ok demo_libs f" by (simp add: demo_files_ok)
  note t2 = save_files_fresh_names [OF f2 ok2 disk, of demo_config]
  have B: "api_save_files demo_libs demo_config demo_disk
         (Inr (PDict [(''files'', PList [file_a, file_a_again])]))
     = (Response (save_success [''/home/u/Downloads/signed_documents_1.zip'']) 200,
        \<lparr>trace = [ZipOpen ''/home/u/Downloads/signed_documents_1.zip'',
                  ZipWritestr (PStr ''a.pdf'') ''first'', ZipWritestr (PStr ''a.pdf'') ''second'',
                  ZipClose, Reveal ''/home/u/Downloads/signed_documents_1.zip''],
         session_var = False\<rparr>)"
    using t2 by (simp add: fresh_zip demo_files_ok)
  show ?thesis using A B C by blast
qed

text \<open>
  Claim C7 as stated fails: two files of the same name give two entries of the same name in
  the archive; and a name that is an absolute path is written where it points, not in the
  Downloads folder.
\<close>

theorem zip_entries_counterexample:
  "trace (snd (api_save_files demo_libs demo_config demo_disk
                 (Inr (PDict [(''files'', PList [file_a, file_a_again])]))))
     = [ZipOpen ''/home/u/Downloads/signed_documents_1.zip'',
        ZipWritestr (PStr ''a.pdf'') ''first'', ZipWritestr (PStr ''a.pdf'') ''second'',
        ZipClose, Reveal ''/home/u/Downloads/signed_documents_1.zip'']
   \<and> trace (snd (api_save_files demo_libs demo_config demo_disk
                 (Inr (PDict [(''files'', PList [file_outside])]))))
     = [WriteFile ''/tmp/evil.pdf'' ''x'', Reveal ''/tmp/evil.pdf'']"
  by (simp add: file_a_def file_a_again_def file_outside_def demo_defs io_defs py_defs save_defs
      path_defs Let_def)

theorem empty_files_archive_witness:
  "api_save_files demo_libs demo_config demo_disk (Inr (PDict [(''files'', PList [])]))
     = (Response (PDict [(''success'', PBool True),
                         (''saved_files'', PList [PStr ''/home/u/Downloads/signed_documents_1.zip''])]) 200,
        \<lparr>trace = [ZipOpen ''/home/u/Downloads/signed_documents_1.zip'', ZipClose,
                  Reveal ''/home/u/Downloads/signed_documents_1.zip''],
         session_var = False\<rparr>)
   \<and> ''/home/u/Downloads/signed_documents_1.zip'' \<notin> set (existing_paths demo_config)"
proof -
  have f: "map_of [(''files'', PList [])] ''files'' = Some (PList [])" by simp
  have disk: "d_zip_open demo_disk (fresh_path demo_config ''signed_documents.zip'') = None"
    "d_zip_close demo_disk = None"
    "d_reveal demo_disk (fresh_path demo_config ''signed_documents.zip'') = None"
    by (simp_all add: demo_disk_def)
  show ?thesis
    using empty_files_archive [OF f disk, of demo_libs] by (simp add: fresh_zip)
qed

section \<open>The session of the signing handler\<close>

lemma add_field_events:
  assumes "add_field L P g s = (r, s')"
  shows "session_var s' = session_var s
     \<and> (\<forall>ev \<in> set (trace s'). ev \<in> set (trace s) \<or> ev = PagesKids
            \<or> (\<exists>spec. ev = AppendSignatureField spec))"
  using add_field_trace [OF assms] by auto

lemma sign_body_session:
  assumes "sign_body L cfg T P D form pdf_file slot_id pin g s = (r, s')"
    and "TokenOpen i p \<in> set (trace s')" and "TokenOpen i p \<notin> set (trace s)"
    and "t_open T i p = None"
  shows "session_var s' \<or> SessionClose \<in> set (trace s')"
  using assms unfolding sign_body_def Let_def
  by (auto elim!: io_bindE dest!: call_trace lift_state ret_state set_session_state add_field_events
      simp: answer_def split: if_splits option.splits)

text \<open>
  \<^verbatim>\<open>POST /api/sign\<close> does close: in every run in which a session was opened,
  \<^verbatim>\<open>session.close()\<close> is called, by line 405 or by the \<^verbatim>\<open>finally\<close> clause.
\<close>

lemma sign_session_closed:
  assumes "api_sign_pdf L cfg T P D rq = (r, s)"
    and "TokenOpen i p \<in> set (trace s)" and "t_open T i p = None"
  shows "SessionClose \<in> set (trace s)"
proof -
  from assms(1,2) obtain pdf_file slot_id g where
    run: "sign_try L cfg T P D (rq_form rq) pdf_file slot_id
                (strip (form_str (rq_form rq) ''pin'' [])) g st0 = (r, s)"
    by (auto simp: api_sign_pdf_def st0_def Let_def split: if_splits option.splits sum.splits)
  obtain rb sb where body: "sign_body L cfg T P D (rq_form rq) pdf_file slot_id
                (strip (form_str (rq_form rq) ''pin'' [])) g st0 = (rb, sb)"
    by (cases "sign_body L cfg T P D (rq_form rq) pdf_file slot_id
                (strip (form_str (rq_form rq) ''pin'' [])) g st0") auto
  have tr: "trace s = trace (sign_finally sb) \<or> trace s = trace (sign_finally (sb\<lparr>trace := trace sb @ [PrintExc]\<rparr>))"
    using run body by (auto simp: sign_try_def split: sum.splits if_splits)
  then have "TokenOpen i p \<in> set (trace sb)"
    using assms(2) by (auto simp: sign_finally_def split: if_splits)
  from sign_body_session [OF body this _ assms(3)]
  have "session_var sb \<or> SessionClose \<in> set (trace sb)" by (simp add: st0_def)
  then show ?thesis using tr by (auto simp: sign_finally_def split: if_splits)
qed

end
